theory Spec2Isabelle
  imports Complex_Main "HOL-Library.Product_Lexorder"
begin

section \<open>Dividend announcement tools: a shallow embedding\<close>

text \<open>
  The development follows two scripts of the repository: \<^verbatim>\<open>Dividend_predictor.py\<close>
  (pattern mining and prediction) and \<^verbatim>\<open>dividend_updater_backup_2025_06_08_1000.py\<close>
  (parsing of markdown updates, duplicate detection, merging into the CSV store).

  Modelling conventions.
  \<^item> A Python \<^verbatim>\<open>float\<close> is a rational (\<^typ>\<open>rat\<close>), the value of the float. The
    tolerance test of the duplicate check rounds as binary64 arithmetic does (round to
    nearest, ties to even); the averages and the confidence score are computed exactly. NaN,
    the infinities and overflow are outside the model.
  \<^item> A Python \<^verbatim>\<open>str\<close> is a \<^typ>\<open>string\<close>; a character stands for a code point
    below 256. The functions below look at a character only to compare it with a
    parenthesis, a dot, a sign or a digit and to test it for white space.
  \<^item> \<^verbatim>\<open>datetime.now().date()\<close> is the parameter \<open>today\<close> of every function that
    reads the clock.
  \<^item> A data frame is the list of its rows, in row order; a cell that pandas holds as
    \<^verbatim>\<open>NaT\<close>/\<^verbatim>\<open>NaN\<close> in a date column is \<^term>\<open>None\<close>.
  \<^item> \<^verbatim>\<open>sort_values\<close> is a stable sort; the properties below depend on the rows
    it returns, not on the order of rows of equal date.
  \<^item> Dates stay within the range that \<^verbatim>\<open>datetime\<close> and pandas represent:
    the \<^verbatim>\<open>OverflowError\<close> of a date sum past year 9999 and the out-of-bounds error of
    a pandas timestamp are outside the model.
  \<^item> What the scripts print is not part of the predictor's model; the updater's model
    returns the printed notices of the parser as a list of messages.
\<close>

subsection \<open>Calendar dates (Python's \<^verbatim>\<open>datetime.date\<close>)\<close>

datatype py_error = ValueError

record date =
  dyear :: int
  dmonth :: int
  dday :: int

definition is_leap :: "int \<Rightarrow> bool" where
  "is_leap y = (y mod 4 = 0 \<and> (y mod 100 \<noteq> 0 \<or> y mod 400 = 0))"

definition days_in_month :: "int \<Rightarrow> int \<Rightarrow> int" where
  "days_in_month y m =
     (if m = 2 then (if is_leap y then 29 else 28)
      else if m = 4 \<or> m = 6 \<or> m = 9 \<or> m = 11 then 30 else 31)"

definition days_before_year :: "int \<Rightarrow> int" where
  "days_before_year y = (y - 1) * 365 + (y - 1) div 4 - (y - 1) div 100 + (y - 1) div 400"

definition days_before_month :: "int \<Rightarrow> int \<Rightarrow> int" where
  "days_before_month y m = sum_list (map (days_in_month y) [1..m - 1])"

text \<open>\<^verbatim>\<open>date.toordinal()\<close>: the proleptic Gregorian ordinal, 1 for 0001-01-01.\<close>

definition toordinal :: "date \<Rightarrow> int" where
  "toordinal d = days_before_year (dyear d) + days_before_month (dyear d) (dmonth d) + dday d"

text \<open>
  The constructor \<^verbatim>\<open>datetime(year, month, day).date()\<close>: a \<^verbatim>\<open>ValueError\<close> for a year,
  month or day out of range.
\<close>

definition datetime_date :: "int \<Rightarrow> int \<Rightarrow> int \<Rightarrow> py_error + date" where
  "datetime_date y m d =
     (if 1 \<le> y \<and> y \<le> 9999 \<and> 1 \<le> m \<and> m \<le> 12 \<and> 1 \<le> d \<and> d \<le> days_in_month y m
      then Inr \<lparr>dyear = y, dmonth = m, dday = d\<rparr>
      else Inl ValueError)"

text \<open>
  Dates are compared, and days are added and subtracted, through the ordinal:
  \<^verbatim>\<open>a >= t - timedelta(days=n)\<close> is \<open>toordinal a \<ge> toordinal t - n\<close>, and
  \<^verbatim>\<open>(a - t).days\<close> is \<open>toordinal a - toordinal t\<close>.
\<close>

subsection \<open>The historical data frame\<close>

text \<open>
  One row of the CSV store. \<open>ex_date\<close> is the ex-dividend date column after
  \<^verbatim>\<open>pd.to_datetime(..., errors='coerce')\<close>: \<^term>\<open>None\<close> where the text did not parse.
\<close>

record row =
  company :: string
  ex_date :: "date option"
  dividend :: rat
  payment_date :: string
  yield_str :: string

subsection \<open>Pattern mining (\<^verbatim>\<open>Dividend_predictor.py\<close>)\<close>

definition RECENT_ANNOUNCEMENT_WINDOW :: int where
  "RECENT_ANNOUNCEMENT_WINDOW = 60"

record pattern =
  month :: int
  day :: int
  frequency :: nat
  last_year :: int
  avg_dividend :: rat
  years :: "int list"

text \<open>\<^verbatim>\<open>Series.unique()\<close>: the distinct values in order of first appearance.\<close>

fun unique :: "'a list \<Rightarrow> 'a list" where
  "unique [] = []"
| "unique (x # xs) = x # unique (filter (\<lambda>y. y \<noteq> x) xs)"

text \<open>
  \<^verbatim>\<open>month_day_patterns[month_day].append(date.year)\<close> on a \<^verbatim>\<open>defaultdict(list)\<close>:
  the dictionary is an association list in insertion order.
\<close>

fun append_year :: "int \<times> int \<Rightarrow> int \<Rightarrow> ((int \<times> int) \<times> int list) list \<Rightarrow> ((int \<times> int) \<times> int list) list" where
  "append_year k y [] = [(k, [y])]"
| "append_year k y ((k', ys) # m) =
     (if k' = k then (k', ys @ [y]) # m else (k', ys) # append_year k y m)"

definition month_day_patterns :: "date list \<Rightarrow> ((int \<times> int) \<times> int list) list" where
  "month_day_patterns historical_dates =
     foldl (\<lambda>m d. append_year (dmonth d, dday d) (dyear d) m) [] historical_dates"

text \<open>The rows selected by \<^verbatim>\<open>(dt.month == month) & (dt.day == day)\<close>; a \<^verbatim>\<open>NaT\<close> row never matches.\<close>

definition on_month_day :: "int \<Rightarrow> int \<Rightarrow> row \<Rightarrow> bool" where
  "on_month_day m d r = (case ex_date r of None \<Rightarrow> False | Some x \<Rightarrow> dmonth x = m \<and> dday x = d)"

definition mean :: "rat list \<Rightarrow> rat" where
  "mean xs = sum_list xs / of_nat (length xs)"

text \<open>The body of the loop over \<^verbatim>\<open>month_day_patterns.items()\<close>: one group gives one pattern or none.\<close>

fun frequent_pattern :: "row list \<Rightarrow> (int \<times> int) \<times> int list \<Rightarrow> pattern list" where
  "frequent_pattern company_data ((m, d), ys) =
     (if length ys \<ge> 2
      then [\<lparr>month = m, day = d, frequency = length ys,
             last_year = fold max (tl ys) (hd ys),
             avg_dividend = mean (map dividend (filter (on_month_day m d) company_data)),
             years = ys\<rparr>]
      else [])"

definition historical_dates_of :: "row list \<Rightarrow> date list" where
  "historical_dates_of company_data = List.map_filter ex_date company_data"

definition analyze_company_pattern_with_freq :: "row list \<Rightarrow> string \<Rightarrow> int \<Rightarrow> pattern list option" where
  "analyze_company_pattern_with_freq company_data company_name min_frequency =
     (let historical_dates = historical_dates_of company_data in
      if int (length historical_dates) < min_frequency then None
      else
        let sorted_dates = sort_key toordinal historical_dates;
            frequent_patterns =
              concat (map (frequent_pattern company_data) (month_day_patterns sorted_dates))
        in if frequent_patterns = [] then None else Some frequent_patterns)"

text \<open>\<^verbatim>\<open>sort_values\<close> on the ex-date column: ascending, \<^verbatim>\<open>NaT\<close> last.\<close>

definition sort_by_ex_date :: "row list \<Rightarrow> row list" where
  "sort_by_ex_date rows =
     sort_key (\<lambda>r. toordinal (the (ex_date r))) (filter (\<lambda>r. ex_date r \<noteq> None) rows)
       @ filter (\<lambda>r. ex_date r = None) rows"

definition is_recent :: "date \<Rightarrow> row \<Rightarrow> bool" where
  "is_recent today r =
     (case ex_date r of None \<Rightarrow> False
      | Some x \<Rightarrow> toordinal x \<ge> toordinal today - RECENT_ANNOUNCEMENT_WINDOW)"

text \<open>The body of the loop over the companies: the entry added to \<^verbatim>\<open>company_patterns\<close>, if any.\<close>

definition analyze_company :: "row list \<Rightarrow> int \<Rightarrow> date \<Rightarrow> string \<Rightarrow> (string \<times> pattern list) list" where
  "analyze_company df min_frequency today c =
     (let company_data = filter (\<lambda>r. company r = c) df in
      if int (length company_data) < min_frequency then []
      else if filter (is_recent today) company_data \<noteq> [] then []
      else
        (case analyze_company_pattern_with_freq (sort_by_ex_date company_data) c min_frequency of
           None \<Rightarrow> []
         | Some patterns \<Rightarrow> [(c, patterns)]))"

definition analyze_dividend_patterns :: "row list \<Rightarrow> int \<Rightarrow> date \<Rightarrow> (string \<times> pattern list) list" where
  "analyze_dividend_patterns df min_frequency today =
     concat (map (analyze_company df min_frequency today) (unique (map company df)))"

subsection \<open>Prediction\<close>

record prediction =
  pred_company :: string
  predicted_ex_date :: date
  days_until :: int
  pred_frequency :: nat
  last_occurrence :: int
  pred_avg_dividend :: rat
  confidence :: rat
  pattern_years :: string

text \<open>\<^verbatim>\<open>str\<close> of an integer and \<^verbatim>\<open>sep.join\<close>.\<close>

fun str_of_nat :: "nat \<Rightarrow> string" where
  "str_of_nat n =
     (if n < 10 then [char_of (48 + n)] else str_of_nat (n div 10) @ [char_of (48 + n mod 10)])"

definition str_of_int :: "int \<Rightarrow> string" where
  "str_of_int i = (if i < 0 then CHR ''-'' # str_of_nat (nat (- i)) else str_of_nat (nat i))"

fun join :: "string \<Rightarrow> string list \<Rightarrow> string" where
  "join sep [] = []"
| "join sep [x] = x"
| "join sep (x # y # ys) = x @ sep @ join sep (y # ys)"

text \<open>\<^verbatim>\<open>round(x, 1)\<close>: to one decimal place, a tie to the even neighbour.\<close>

definition round1 :: "rat \<Rightarrow> rat" where
  "round1 x =
     (let t = x * 10; f = \<lfloor>t\<rfloor>; r = t - of_int f
      in of_int (if r < 1 / 2 then f else if 1 / 2 < r then f + 1
                 else if even f then f else f + 1) / 10)"

definition calculate_confidence :: "pattern \<Rightarrow> int \<Rightarrow> rat" where
  "calculate_confidence p predicted_year =
     (let frequency_score = min (of_nat (frequency p) / 5) 1;
          years_since_last = predicted_year - last_year p;
          recency_score = max 0 (1 - (of_int years_since_last - 1) * (2 / 10));
          conf = (frequency_score * (7 / 10) + recency_score * (3 / 10)) * 100
      in round1 conf)"

text \<open>
  The body of the loop over \<^verbatim>\<open>[today.year, today.year + 1]\<close>: the \<^verbatim>\<open>try\<close> block with its
  \<^verbatim>\<open>except ValueError: continue\<close>.
\<close>

definition predict_year :: "date \<Rightarrow> int \<Rightarrow> string \<Rightarrow> pattern \<Rightarrow> int \<Rightarrow> prediction list" where
  "predict_year today prediction_days c p y =
     (case datetime_date y (month p) (day p) of
        Inl ValueError \<Rightarrow> []
      | Inr predicted_date \<Rightarrow>
          if toordinal today \<le> toordinal predicted_date
             \<and> toordinal predicted_date \<le> toordinal today + prediction_days
          then [\<lparr>pred_company = c, predicted_ex_date = predicted_date,
                 days_until = toordinal predicted_date - toordinal today,
                 pred_frequency = frequency p, last_occurrence = last_year p,
                 pred_avg_dividend = avg_dividend p,
                 confidence = calculate_confidence p y,
                 pattern_years = join '', '' (map str_of_int (years p))\<rparr>]
          else [])"

definition predict_pattern :: "date \<Rightarrow> int \<Rightarrow> string \<Rightarrow> pattern \<Rightarrow> prediction list" where
  "predict_pattern today prediction_days c p =
     concat (map (predict_year today prediction_days c p) [dyear today, dyear today + 1])"

definition predict_company :: "date \<Rightarrow> int \<Rightarrow> string \<times> pattern list \<Rightarrow> prediction list" where
  "predict_company today prediction_days cp =
     concat (map (predict_pattern today prediction_days (fst cp)) (snd cp))"

definition sort_predictions :: "prediction list \<Rightarrow> prediction list" where
  "sort_predictions ps = sort_key (\<lambda>x. (days_until x, - confidence x)) ps"

definition predict_upcoming_announcements :: "(string \<times> pattern list) list \<Rightarrow> int \<Rightarrow> date \<Rightarrow> prediction list" where
  "predict_upcoming_announcements company_patterns prediction_days today =
     sort_predictions (concat (map (predict_company today prediction_days) company_patterns))"

subsection \<open>Text helpers (\<^verbatim>\<open>str.strip\<close>, \<^verbatim>\<open>re.sub\<close>, \<^verbatim>\<open>re.match\<close>)\<close>

text \<open>The white space of \<^verbatim>\<open>str.strip()\<close> and of \<^verbatim>\<open>\s\<close> among the code points below 256.\<close>

definition is_space :: "char \<Rightarrow> bool" where
  "is_space c =
     (let n = (of_char c :: nat)
      in (9 \<le> n \<and> n \<le> 13) \<or> (28 \<le> n \<and> n \<le> 32) \<or> n = 133 \<or> n = 160)"

definition strip :: "string \<Rightarrow> string" where
  "strip s = rev (dropWhile is_space (rev (dropWhile is_space s)))"

text \<open>
  \<^verbatim>\<open>re.sub(r'\([^\)]+\)', '', name)\<close>: scanning from the left, an opening parenthesis
  followed by at least one character other than a closing parenthesis and then by a
  closing parenthesis is removed together with what it encloses; any other character
  is kept.
\<close>

function remove_parenthesised :: "string \<Rightarrow> string" where
  "remove_parenthesised [] = []"
| "remove_parenthesised (c # cs) =
     (if c = CHR ''('' \<and> takeWhile (\<lambda>x. x \<noteq> CHR '')'') cs \<noteq> []
         \<and> dropWhile (\<lambda>x. x \<noteq> CHR '')'') cs \<noteq> []
      then remove_parenthesised (tl (dropWhile (\<lambda>x. x \<noteq> CHR '')'') cs))
      else c # remove_parenthesised cs)"
  by pat_completeness auto
termination
proof (relation "measure length")
  fix c :: char and cs :: string
  have "length (dropWhile (\<lambda>x. x \<noteq> CHR '')'') cs) \<le> length cs"
    by (rule length_dropWhile_le)
  then show "(tl (dropWhile (\<lambda>x. x \<noteq> CHR '')'') cs), c # cs) \<in> measure length"
    by simp
qed simp_all

subsection \<open>The updater (\<^verbatim>\<open>dividend_updater_backup_2025_06_08_1000.py\<close>)\<close>

definition normalize_company_name :: "string \<Rightarrow> string" where
  "normalize_company_name name =
     strip (remove_parenthesised (filter (\<lambda>c. \<not> is_space c) name))"

text \<open>
  \<^verbatim>\<open>datetime.strptime(s, '%d.%m.%Y')\<close>. The directives are the regular expressions
  \<^verbatim>\<open>3[0-1]|[1-2]\d|0[1-9]|[1-9]| [1-9]\<close> for the day, \<^verbatim>\<open>1[0-2]|0[1-9]|[1-9]\<close> for the
  month and \<^verbatim>\<open>\d\d\d\d\<close> for the year; the whole text has to match, and the date
  constructor then checks the day against the month.
\<close>

definition is_digit :: "char \<Rightarrow> bool" where
  "is_digit c = (let n = (of_char c :: nat) in 48 \<le> n \<and> n \<le> 57)"

definition digit_val :: "char \<Rightarrow> int" where
  "digit_val c = int (of_char c) - 48"

definition int_of_digits :: "string \<Rightarrow> int" where
  "int_of_digits s = foldl (\<lambda>n c. 10 * n + digit_val c) 0 s"

fun split_on :: "char \<Rightarrow> string \<Rightarrow> string list" where
  "split_on sep [] = [[]]"
| "split_on sep (c # cs) =
     (if c = sep then [] # split_on sep cs
      else (case split_on sep cs of [] \<Rightarrow> [[c]] | w # ws \<Rightarrow> (c # w) # ws))"

fun day_text :: "string \<Rightarrow> int option" where
  "day_text [a] = (if is_digit a \<and> a \<noteq> CHR ''0'' then Some (digit_val a) else None)"
| "day_text [a, b] =
     (if a = CHR '' '' then (if is_digit b \<and> b \<noteq> CHR ''0'' then Some (digit_val b) else None)
      else if is_digit a \<and> is_digit b \<and> 1 \<le> int_of_digits [a, b] \<and> int_of_digits [a, b] \<le> 31
      then Some (int_of_digits [a, b]) else None)"
| "day_text s = None"

fun month_text :: "string \<Rightarrow> int option" where
  "month_text [a] = (if is_digit a \<and> a \<noteq> CHR ''0'' then Some (digit_val a) else None)"
| "month_text [a, b] =
     (if is_digit a \<and> is_digit b \<and> 1 \<le> int_of_digits [a, b] \<and> int_of_digits [a, b] \<le> 12
      then Some (int_of_digits [a, b]) else None)"
| "month_text s = None"

definition year_text :: "string \<Rightarrow> int option" where
  "year_text s = (if length s = 4 \<and> list_all is_digit s then Some (int_of_digits s) else None)"

definition strptime :: "string \<Rightarrow> py_error + date" where
  "strptime s =
     (case split_on CHR ''.'' s of
        [d, m, y] \<Rightarrow>
          (case (day_text d, month_text m, year_text y) of
             (Some dd, Some mm, Some yy) \<Rightarrow> datetime_date yy mm dd
           | _ \<Rightarrow> Inl ValueError)
      | _ \<Rightarrow> Inl ValueError)"

text \<open>One accepted entry of the markdown file: the dictionary appended to \<^verbatim>\<open>entries\<close>.\<close>

record entry =
  e_company :: string
  e_ex_date :: string
  e_dividend :: rat
  e_payment_date :: string
  e_yield :: string
  e_comfortable_date :: date

text \<open>The notices that \<^verbatim>\<open>parse_md_file\<close> prints for a table line.\<close>

datatype message =
    InvalidDividendAmount string rat
  | PaymentBeforeExDate string string string
  | InvalidDateFormat string
  | DuplicateInMD string string
  | ParsedEntry string

text \<open>
  The company cell: \<^verbatim>\<open>re.match(r'^([^(]+)\s*\(([^)]+)\)', company_full)\<close> succeeds when
  the text before the first opening parenthesis is not empty and that parenthesis is
  followed by at least one character other than a closing parenthesis and then by a
  closing one; the groups are that prefix and the text up to the closing parenthesis.
\<close>

definition company_with_acronym_of :: "string \<Rightarrow> string" where
  "company_with_acronym_of company_full =
     (if CHR ''('' \<in> set company_full \<and> CHR '')'' \<in> set company_full
      then
        (let g1 = takeWhile (\<lambda>x. x \<noteq> CHR ''('') company_full;
             rest = tl (dropWhile (\<lambda>x. x \<noteq> CHR ''('') company_full);
             g2 = takeWhile (\<lambda>x. x \<noteq> CHR '')'') rest
         in if g1 \<noteq> [] \<and> g2 \<noteq> [] \<and> dropWhile (\<lambda>x. x \<noteq> CHR '')'') rest \<noteq> []
            then strip g1 @ '' ('' @ strip g2 @ '')''
            else company_full)
      else company_full)"

text \<open>
  The key \<^verbatim>\<open>f"{company_with_acronym}_{ex_date}_{dividend}"\<close> is kept as the triple of
  its parts: the ex-date text has parsed as a date and the printed number holds no
  underscore, so two keys are equal exactly when their three parts are.
\<close>

type_synonym entry_key = "string \<times> string \<times> rat"

definition entry_key_of :: "entry \<Rightarrow> entry_key" where
  "entry_key_of e = (e_company e, e_ex_date e, e_dividend e)"

text \<open>
  The body of the loop over the lines, from the field list \<^verbatim>\<open>parts\<close> on (the cells
  between the pipes, stripped, without the empty first and last cell) of a line that the
  header and separator tests let through. \<^verbatim>\<open>float\<close> is the parameter \<open>float_of\<close>, with
  \<^term>\<open>None\<close> for its \<^verbatim>\<open>ValueError\<close>. The result is what the line appends to
  \<^verbatim>\<open>entries\<close> and what it prints.
\<close>

definition parse_line :: "(string \<Rightarrow> rat option) \<Rightarrow> entry_key list \<Rightarrow> string list \<Rightarrow> entry list \<times> message list" where
  "parse_line float_of seen_entries parts =
     (if length parts < 6 then ([], [])
      else if strip (parts ! 1) = [] then ([], [])
      else
        let company_with_acronym = company_with_acronym_of (strip (parts ! 1));
            ex_date = strip (parts ! 2);
            dividend_str = strip (parts ! 3);
            payment_date = strip (parts ! 5);
            yield_str = (if length parts > 6 then strip (parts ! 6) else [])
        in if dividend_str = [] \<or> ex_date = [] \<or> payment_date = [] then ([], [])
           else
             (case float_of dividend_str of
                None \<Rightarrow> ([], [])
              | Some amount \<Rightarrow>
                  if amount \<le> 0
                  then ([], [InvalidDividendAmount company_with_acronym amount])
                  else
                    (case strptime ex_date of
                       Inl ValueError \<Rightarrow> ([], [InvalidDateFormat company_with_acronym])
                     | Inr ex_date_dt \<Rightarrow>
                         (case strptime payment_date of
                            Inl ValueError \<Rightarrow> ([], [InvalidDateFormat company_with_acronym])
                          | Inr payment_date_dt \<Rightarrow>
                              if toordinal payment_date_dt < toordinal ex_date_dt
                              then ([], [PaymentBeforeExDate company_with_acronym payment_date ex_date])
                              else if (company_with_acronym, ex_date, amount) \<in> set seen_entries
                              then ([], [DuplicateInMD company_with_acronym ex_date])
                              else
                                ([\<lparr>e_company = company_with_acronym, e_ex_date = ex_date,
                                   e_dividend = amount, e_payment_date = payment_date,
                                   e_yield = yield_str, e_comfortable_date = ex_date_dt\<rparr>],
                                 [ParsedEntry company_with_acronym])))))"

fun parse_lines :: "(string \<Rightarrow> rat option) \<Rightarrow> entry_key list \<Rightarrow> string list list \<Rightarrow> entry list \<times> message list" where
  "parse_lines float_of seen_entries [] = ([], [])"
| "parse_lines float_of seen_entries (parts # rest) =
     (let (es, ms) = parse_line float_of seen_entries parts;
          (es', ms') = parse_lines float_of (seen_entries @ map entry_key_of es) rest
      in (es @ es', ms @ ms'))"

text \<open>\<^verbatim>\<open>parse_md_file\<close> returns the entries and their number; the third component is what it printed.\<close>

definition parse_md_file :: "(string \<Rightarrow> rat option) \<Rightarrow> string list list \<Rightarrow> entry list \<times> nat \<times> message list" where
  "parse_md_file float_of content_lines =
     (let (entries, printed) = parse_lines float_of [] content_lines
      in (entries, length entries, printed))"

text \<open>
  \<^verbatim>\<open>is_duplicate_entry\<close>. The new row's company is cut at its first opening parenthesis
  (\<^verbatim>\<open>re.match(r'^([^(]+)', company)\<close>, stripped) before it is normalised; the store's
  names are normalised as they are. Ex-dates are compared as the texts that
  \<^verbatim>\<open>strftime('%d.%m.%Y')\<close> gives, a missing one being equal to nothing.
\<close>

datatype reason = ExactMatch | SameAmountAndDate string

definition name_without_acronym :: "string \<Rightarrow> string" where
  "name_without_acronym c =
     (let g1 = takeWhile (\<lambda>x. x \<noteq> CHR ''('') c in if g1 = [] then c else strip g1)"

definition same_ex_date :: "row \<Rightarrow> row \<Rightarrow> bool" where
  "same_ex_date existing r =
     (case (ex_date existing, ex_date r) of (Some a, Some b) \<Rightarrow> a = b | _ \<Rightarrow> False)"

text \<open>
  The amounts are Python floats (IEEE 754 binary64), and \<^verbatim>\<open>abs(a - b) < 0.01\<close> is
  evaluated in that arithmetic: the difference is rounded to the nearest float, ties to the
  even significand, and \<^verbatim>\<open>0.01\<close> is the float nearest to one hundredth. A finite float is
  \<open>m * 2 ^ e\<close> with \<open>\<bar>m\<bar> < 2 ^ 53\<close> and \<open>- 1074 \<le> e\<close>; \<open>float64_round\<close> gives the float
  nearest to a rational (the exponent's upper end, where Python gives \<^verbatim>\<open>inf\<close>, is left
  out). Taking the absolute value is exact.
\<close>

function bit_length :: "int \<Rightarrow> int" where
  "bit_length n = (if n \<le> 0 then 0 else 1 + bit_length (n div 2))"
  by pat_completeness auto
termination
  by (relation "measure nat") auto

declare bit_length.simps [simp del]

definition pow2 :: "int \<Rightarrow> rat" where
  "pow2 e = (if 0 \<le> e then 2 ^ nat e else 1 / 2 ^ nat (- e))"

text \<open>The binary exponent of a positive rational \<open>x\<close>: the \<open>k\<close> with \<open>2 ^ k \<le> x < 2 ^ (k + 1)\<close>.\<close>

definition floor_log2 :: "rat \<Rightarrow> int" where
  "floor_log2 x =
     (let (p, q) = quotient_of x;
          k = bit_length p - bit_length q
      in if pow2 k \<le> x then k else k - 1)"

definition round_half_even :: "rat \<Rightarrow> int" where
  "round_half_even t =
     (let f = \<lfloor>t\<rfloor>; r = t - of_int f
      in if r < 1 / 2 then f else if 1 / 2 < r then f + 1 else if even f then f else f + 1)"

definition float64_round :: "rat \<Rightarrow> rat" where
  "float64_round x =
     (if x = 0 then 0
      else
        let e = max (floor_log2 \<bar>x\<bar> - 52) (- 1074)
        in sgn x * of_int (round_half_even (\<bar>x\<bar> / pow2 e)) * pow2 e)"

text \<open>
  \<^verbatim>\<open>abs(df_csv[amount] - dividend) < 0.01\<close> on one stored row. The two amounts are floats
  already; rounding them first changes nothing on a float and lets a row be written with
  the decimal amount of its text.
\<close>

definition amount_close :: "row \<Rightarrow> row \<Rightarrow> bool" where
  "amount_close existing r =
     (\<bar>float64_round (float64_round (dividend existing) - float64_round (dividend r))\<bar>
        < float64_round (1 / 100))"

definition is_duplicate_entry :: "row \<Rightarrow> row list \<Rightarrow> bool \<times> reason option" where
  "is_duplicate_entry r df_csv =
     (let normalized_new = normalize_company_name (name_without_acronym (company r));
          exact_matches =
            filter (\<lambda>e. normalize_company_name (company e) = normalized_new
                         \<and> same_ex_date e r \<and> amount_close e r) df_csv
      in if exact_matches \<noteq> [] then (True, Some ExactMatch)
         else
           (case find (\<lambda>existing. amount_close existing r
                          \<and> normalize_company_name (company existing) = normalized_new)
                   (filter (\<lambda>e. same_ex_date e r) df_csv) of
              Some existing \<Rightarrow> (True, Some (SameAmountAndDate (company existing)))
            | None \<Rightarrow> (False, None)))"

text \<open>A parsed entry as a row of the data frame \<^verbatim>\<open>df_new\<close>, its ex-date converted.\<close>

definition entry_row :: "entry \<Rightarrow> row" where
  "entry_row e =
     \<lparr>company = e_company e, ex_date = Some (e_comfortable_date e), dividend = e_dividend e,
      payment_date = e_payment_date e, yield_str = e_yield e\<rparr>"

text \<open>
  \<^verbatim>\<open>update_csv_file\<close> on the rows read from the CSV file and the lines of the markdown file:
  the rows written back (the rows read when nothing is written), the new entries and the
  duplicates with their reasons. Every new row is checked against the rows read, not
  against the rows accepted before it.
\<close>

definition update_csv_file :: "(string \<Rightarrow> rat option) \<Rightarrow> row list \<Rightarrow> string list list \<Rightarrow> row list \<times> row list \<times> (row \<times> reason option) list" where
  "update_csv_file float_of df_csv content_lines =
     (let (entries, total_md_entries, printed) = parse_md_file float_of content_lines in
      if entries = [] then (df_csv, [], [])
      else
        let df_new = map entry_row entries;
            duplicates =
              map (\<lambda>r. (r, snd (is_duplicate_entry r df_csv)))
                (filter (\<lambda>r. fst (is_duplicate_entry r df_csv)) df_new);
            new_entries = filter (\<lambda>r. \<not> fst (is_duplicate_entry r df_csv)) df_new
        in if new_entries = [] then (df_csv, new_entries, duplicates)
           else (sort_by_ex_date (df_csv @ new_entries), new_entries, duplicates))"

text \<open>
  A decimal numeral with an optional sign, read as \<^verbatim>\<open>float\<close> reads it; other texts are
  outside this reader. It stands for \<^verbatim>\<open>float\<close> in the concrete runs below.
\<close>

definition unsigned_decimal :: "string \<Rightarrow> rat option" where
  "unsigned_decimal s =
     (let ip = takeWhile (\<lambda>c. c \<noteq> CHR ''.'') s;
          fp = drop (Suc (length ip)) s
      in if list_all is_digit ip \<and> list_all is_digit fp \<and> (ip \<noteq> [] \<or> fp \<noteq> [])
         then Some (of_int (int_of_digits ip) + of_int (int_of_digits fp) / 10 ^ length fp)
         else None)"

definition float_decimal :: "string \<Rightarrow> rat option" where
  "float_decimal s =
     (case s of
        [] \<Rightarrow> None
      | c # cs \<Rightarrow>
          if c = CHR ''-'' then map_option uminus (unsigned_decimal cs)
          else if c = CHR ''+'' then unsigned_decimal cs
          else unsigned_decimal s)"

text \<open>The first entry of each key, in order: the within-batch rule in words.\<close>

fun first_of_each_key :: "entry list \<Rightarrow> entry list" where
  "first_of_each_key [] = []"
| "first_of_each_key (e # es) =
     e # first_of_each_key (filter (\<lambda>x. entry_key_of x \<noteq> entry_key_of e) es)"

text \<open>The entries of the lines that pass the validation, each line taken by itself.\<close>

definition validated_entries :: "(string \<Rightarrow> rat option) \<Rightarrow> string list list \<Rightarrow> entry list" where
  "validated_entries float_of content_lines =
     concat (map (\<lambda>parts. fst (parse_line float_of [] parts)) content_lines)"

subsection \<open>Concrete inputs\<close>

definition mk_row :: "string \<Rightarrow> int \<Rightarrow> int \<Rightarrow> int \<Rightarrow> rat \<Rightarrow> row" where
  "mk_row c y m d a =
     \<lparr>company = c, ex_date = Some \<lparr>dyear = y, dmonth = m, dday = d\<rparr>, dividend = a,
      payment_date = [], yield_str = []\<rparr>"

definition alpha_df :: "row list" where
  "alpha_df = [mk_row ''Alpha (ALP)'' 2022 3 15 1, mk_row ''Alpha (ALP)'' 2023 3 15 (12 / 10)]"

definition same_day_df :: "row list" where
  "same_day_df = [mk_row ''Alpha (ALP)'' 2022 3 15 1, mk_row ''Alpha (ALP)'' 2022 3 15 (1 / 2)]"

definition march_2024 :: date where
  "march_2024 = \<lparr>dyear = 2024, dmonth = 3, dday = 1\<rparr>"

definition feb_2025 :: date where
  "feb_2025 = \<lparr>dyear = 2025, dmonth = 2, dday = 20\<rparr>"

definition leap_day_pattern :: pattern where
  "leap_day_pattern =
     \<lparr>month = 2, day = 29, frequency = 2, last_year = 2020, avg_dividend = 1, years = [2016, 2020]\<rparr>"

definition mid_march_pattern :: pattern where
  "mid_march_pattern =
     \<lparr>month = 3, day = 15, frequency = 2, last_year = 2023, avg_dividend = 11 / 10, years = [2022, 2023]\<rparr>"


definition recent_row :: row where
  "recent_row = mk_row ''Alpha (ALP)'' 2024 2 1 1"

definition future_row :: row where
  "future_row = mk_row ''Alpha (ALP)'' 2024 6 1 1"

text \<open>
  Table lines as field lists: an empty first cell, the company, the ex-date, the amount,
  the type, the payment date.
\<close>

definition good_line :: "string list" where
  "good_line = ['''', ''Alpha (ALP)'', ''15.03.2024'', ''1.0'', '''', ''20.03.2024'']"

definition good_entry :: entry where
  "good_entry =
     \<lparr>e_company = ''Alpha (ALP)'', e_ex_date = ''15.03.2024'', e_dividend = 1,
      e_payment_date = ''20.03.2024'', e_yield = [],
      e_comfortable_date = \<lparr>dyear = 2024, dmonth = 3, dday = 15\<rparr>\<rparr>"

definition no_ex_date_line :: "string list" where
  "no_ex_date_line = ['''', ''Alpha (ALP)'', '''', ''1.0'', '''', ''20.03.2024'']"

definition zero_amount_line :: "string list" where
  "zero_amount_line = ['''', ''Alpha (ALP)'', ''15.03.2024'', ''0'', '''', ''20.03.2024'']"

definition other_code_line :: "string list" where
  "other_code_line = ['''', ''Alpha (ALQ)'', ''15.03.2024'', ''1.0'', '''', ''20.03.2024'']"

definition short_date_line :: "string list" where
  "short_date_line = ['''', ''Alpha (ALP)'', ''15.3.2024'', ''1.0'', '''', ''20.03.2024'']"

definition unclosed_line :: "string list" where
  "unclosed_line = ['''', ''Alpha (ALP'', ''15.03.2024'', ''1.0'', '''', ''20.03.2024'']"

definition beta_store :: "row list" where
  "beta_store = [mk_row ''Beta (BET)'' 2024 3 15 1]"

definition alpha_again :: row where
  "alpha_again = mk_row ''Alpha (ALP)'' 2023 3 15 (12 / 10)"

definition unclosed_row :: row where
  "unclosed_row = \<lparr>company = ''Alpha (ALP'', ex_date = Some \<lparr>dyear = 2024, dmonth = 3, dday = 15\<rparr>,
      dividend = 1, payment_date = ''20.03.2024'', yield_str = []\<rparr>"

section \<open>Properties of the pattern miner and the predictor\<close>

subsection \<open>The ordinal follows the calendar\<close>

text \<open>
  On valid dates the order of the ordinals is the order of the (year, month, day) triples,
  which is how \<^verbatim>\<open>datetime.date\<close> compares; so the tests on ordinals in the model are the
  tests on dates in the source.
\<close>

lemma div_step:
  assumes n: "0 < (n::int)"
  shows "y div n = (y - 1) div n + (if y mod n = 0 then 1 else 0)"
proof (cases "y mod n = 0")
  case True
  then obtain k where k: "y = n * k" by (metis mod_eq_0_iff_dvd dvd_def)
  have "(n * k - 1) div n = k - 1"
  proof -
    have "n * k - 1 = (n - 1) + (k - 1) * n" by (simp add: algebra_simps)
    then have "(n * k - 1) div n = ((n - 1) + (k - 1) * n) div n" by (rule arg_cong)
    also have "\<dots> = (n - 1) div n + (k - 1)" using n by (simp only: div_mult_self1)
    also have "(n - 1) div n = 0" using n by (simp add: div_pos_pos_trivial)
    finally show ?thesis by simp
  qed
  with True k n show ?thesis by simp
next
  case False
  define r where "r = y mod n"
  define q where "q = y div n"
  have y: "y = r + q * n" by (simp add: r_def q_def)
  have "0 \<le> r" "r < n" using n by (simp_all add: r_def)
  with False have r: "0 \<le> r - 1" "r - 1 < n" by (simp_all add: r_def)
  have "y - 1 = (r - 1) + q * n" by (simp add: y)
  then have "(y - 1) div n = ((r - 1) + q * n) div n" by (rule arg_cong)
  also have "\<dots> = (r - 1) div n + q" using n by (simp only: div_mult_self1)
  also have "(r - 1) div n = 0" using r by (simp add: div_pos_pos_trivial)
  finally show ?thesis using False by (simp add: q_def)
qed

lemma leap_count:
  "(if is_leap y then 366 else 365 :: int) =
     365 + (if y mod 4 = 0 then 1 else 0) - (if y mod 100 = 0 then 1 else 0)
         + (if y mod 400 = 0 then 1 else 0)"
proof (cases "y mod 4 = 0")
  case False
  then have c: "y mod 100 \<noteq> 0"
    using mod_mod_cancel [of 4 100 y] by auto
  then have "y mod 400 \<noteq> 0"
    using mod_mod_cancel [of 100 400 y] by auto
  with False c show ?thesis by (simp add: is_leap_def)
next
  case True
  show ?thesis
  proof (cases "y mod 100 = 0")
    case False
    then have "y mod 400 \<noteq> 0"
      using mod_mod_cancel [of 100 400 y] by auto
    with True False show ?thesis by (simp add: is_leap_def)
  next
    case h: True
    show ?thesis
    proof (cases "y mod 400 = 0")
      case True
      with \<open>y mod 4 = 0\<close> h show ?thesis by (simp add: is_leap_def)
    next
      case False
      with \<open>y mod 4 = 0\<close> h show ?thesis by (simp add: is_leap_def)
    qed
  qed
qed

lemma days_before_year_Suc:
  "days_before_year (y + 1) = days_before_year y + (if is_leap y then 366 else 365)"
proof -
  define i4 :: int where "i4 = (if y mod 4 = 0 then 1 else 0)"
  define i100 :: int where "i100 = (if y mod 100 = 0 then 1 else 0)"
  define i400 :: int where "i400 = (if y mod 400 = 0 then 1 else 0)"
  have a: "y div 4 = (y - 1) div 4 + i4" unfolding i4_def by (rule div_step) simp
  have b: "y div 100 = (y - 1) div 100 + i100" unfolding i100_def by (rule div_step) simp
  have c: "y div 400 = (y - 1) div 400 + i400" unfolding i400_def by (rule div_step) simp
  have leap: "(if is_leap y then 366 else 365) = 365 + i4 - i100 + i400"
    unfolding i4_def i100_def i400_def by (rule leap_count)
  have "days_before_year (y + 1) = y * 365 + y div 4 - y div 100 + y div 400"
    by (simp add: days_before_year_def)
  also have "\<dots> = ((y - 1) * 365 + (y - 1) div 4 - (y - 1) div 100 + (y - 1) div 400)
        + (365 + i4 - i100 + i400)"
    unfolding a b c by (simp add: algebra_simps)
  finally show ?thesis by (simp only: leap days_before_year_def)
qed

lemma days_before_year_mono:
  assumes "y < Y"
  shows "days_before_year y + 2 \<le> days_before_year Y"
proof -
  define a where "a = y - 1"
  define b where "b = Y - 1"
  have ab: "a < b" using assms by (simp add: a_def b_def)
  have A: "a div 4 \<le> b div 4" using ab by (intro zdiv_mono1) simp_all
  have B: "a div 400 \<le> b div 400" using ab by (intro zdiv_mono1) simp_all
  have C: "100 * (b div 100) \<le> b" by simp
  have D: "a < 100 * (a div 100) + 100"
    using pos_mod_bound [of 100 a] mult_div_mod_eq [of 100 a] by linarith
  have "b div 100 - a div 100 \<le> b - a" using C D ab by linarith
  with A B ab have "a * 365 + a div 4 - a div 100 + a div 400 + 2
      \<le> b * 365 + b div 4 - b div 100 + b div 400" by linarith
  then show ?thesis by (simp add: days_before_year_def a_def b_def)
qed

lemma days_in_month_nonneg: "0 \<le> days_in_month y m"
  by (simp add: days_in_month_def)

lemma days_before_month_next:
  assumes "1 \<le> m" "m < M"
  shows "days_before_month y m + days_in_month y m \<le> days_before_month y M"
proof -
  have "[1..M - 1] = [1..m] @ [m + 1..M - 1]"
    using assms by (intro upto_split2) simp_all
  also have "[1..m] = [1..m - 1] @ [m]"
    using assms by (intro upto_rec2) simp
  finally have "days_before_month y M =
      days_before_month y m + days_in_month y m + sum_list (map (days_in_month y) [m + 1..M - 1])"
    by (simp add: days_before_month_def)
  moreover have "0 \<le> sum_list (map (days_in_month y) [m + 1..M - 1])"
    by (rule sum_list_nonneg) (auto simp: days_in_month_nonneg)
  ultimately show ?thesis by simp
qed

lemma day_of_year_range:
  assumes "1 \<le> m" "m \<le> 12" "1 \<le> d" "d \<le> days_in_month y m"
  shows "1 \<le> days_before_month y m + d
       \<and> days_before_month y m + d \<le> (if is_leap y then 366 else 365)"
proof -
  have "days_before_month y m + days_in_month y m \<le> days_before_month y 13"
    using assms by (intro days_before_month_next) simp_all
  moreover have "days_before_month y 13 = (if is_leap y then 366 else 365)"
    by (simp add: days_before_month_def days_in_month_def upto.simps)
  moreover have "0 \<le> days_before_month y m"
    unfolding days_before_month_def by (rule sum_list_nonneg) (auto simp: days_in_month_nonneg)
  ultimately show ?thesis using assms(3,4) by simp
qed

lemma toordinal_less_lex:
  assumes va: "1 \<le> dmonth a" "dmonth a \<le> 12" "1 \<le> dday a" "dday a \<le> days_in_month (dyear a) (dmonth a)"
    and vb: "1 \<le> dmonth b" "dmonth b \<le> 12" "1 \<le> dday b" "dday b \<le> days_in_month (dyear b) (dmonth b)"
    and lt: "dyear a < dyear b
       \<or> (dyear a = dyear b \<and> (dmonth a < dmonth b \<or> (dmonth a = dmonth b \<and> dday a < dday b)))"
  shows "toordinal a < toordinal b"
proof -
  consider "dyear a < dyear b"
    | "dyear a = dyear b" "dmonth a < dmonth b"
    | "dyear a = dyear b" "dmonth a = dmonth b" "dday a < dday b"
    using lt by blast
  then show ?thesis
  proof cases
    case 1
    then have "dyear a + 1 \<le> dyear b" by simp
    then have "days_before_year (dyear a + 1) \<le> days_before_year (dyear b)"
      using days_before_year_mono [of "dyear a + 1" "dyear b"]
      by (cases "dyear a + 1 = dyear b") auto
    with day_of_year_range [OF va] day_of_year_range [OF vb]
         days_before_year_Suc [of "dyear a"]
    show ?thesis by (simp add: toordinal_def split: if_splits)
  next
    case 2
    from days_before_month_next [OF va(1) 2(2), of "dyear a"] va(4) vb(3) 2(1)
    show ?thesis by (simp add: toordinal_def)
  next
    case 3
    then show ?thesis by (simp add: toordinal_def)
  qed
qed

lemma toordinal_order:
  assumes va: "1 \<le> dmonth a" "dmonth a \<le> 12" "1 \<le> dday a" "dday a \<le> days_in_month (dyear a) (dmonth a)"
    and vb: "1 \<le> dmonth b" "dmonth b \<le> 12" "1 \<le> dday b" "dday b \<le> days_in_month (dyear b) (dmonth b)"
  shows "toordinal a \<le> toordinal b \<longleftrightarrow>
     dyear a < dyear b
       \<or> (dyear a = dyear b \<and> (dmonth a < dmonth b \<or> (dmonth a = dmonth b \<and> dday a \<le> dday b)))"
    (is "?L \<longleftrightarrow> ?R")
proof
  assume r: ?R
  show ?L
  proof (cases "dyear a = dyear b \<and> dmonth a = dmonth b \<and> dday a = dday b")
    case True
    then show ?thesis by (simp add: toordinal_def)
  next
    case False
    with r have "dyear a < dyear b
       \<or> (dyear a = dyear b \<and> (dmonth a < dmonth b \<or> (dmonth a = dmonth b \<and> dday a < dday b)))"
      by auto
    from toordinal_less_lex [OF va vb this] show ?thesis by simp
  qed
next
  assume l: ?L
  show ?R
  proof (rule ccontr)
    assume "\<not> ?R"
    then have "dyear b < dyear a
       \<or> (dyear b = dyear a \<and> (dmonth b < dmonth a \<or> (dmonth b = dmonth a \<and> dday b < dday a)))"
      by auto
    from toordinal_less_lex [OF vb va this] l show False by simp
  qed
qed

subsection \<open>Groups of the association list\<close>

lemma map_of_append_year:
  "map_of (append_year k y m) =
     (map_of m)(k \<mapsto> (case map_of m k of None \<Rightarrow> [y] | Some ys \<Rightarrow> ys @ [y]))"
  by (induction k y m rule: append_year.induct) (auto simp: fun_eq_iff)

lemma keys_append_year:
  "map fst (append_year k y m) = (if k \<in> set (map fst m) then map fst m else map fst m @ [k])"
  by (induction k y m rule: append_year.induct) auto

lemma foldl_append_year_distinct:
  "distinct (map fst m) \<Longrightarrow>
   distinct (map fst (foldl (\<lambda>m d. append_year (dmonth d, dday d) (dyear d) m) m ds))"
  by (induction ds arbitrary: m) (simp_all add: keys_append_year)

lemma foldl_append_year_map_of:
  "map_of (foldl (\<lambda>m d. append_year (dmonth d, dday d) (dyear d) m) m ds) k =
     (let ys = map dyear (filter (\<lambda>x. (dmonth x, dday x) = k) ds)
      in case map_of m k of
           None \<Rightarrow> (if ys = [] then None else Some ys)
         | Some zs \<Rightarrow> Some (zs @ ys))"
proof (induction ds arbitrary: m)
  case Nil
  then show ?case by (simp split: option.splits)
next
  case (Cons d ds)
  show ?case
    by (simp add: Cons.IH map_of_append_year Let_def split: option.splits)
qed

lemma distinct_month_day_patterns: "distinct (map fst (month_day_patterns ds))"
  unfolding month_day_patterns_def by (rule foldl_append_year_distinct) simp

lemma map_of_month_day_patterns:
  "map_of (month_day_patterns ds) k =
     (let ys = map dyear (filter (\<lambda>x. (dmonth x, dday x) = k) ds)
      in if ys = [] then None else Some ys)"
  unfolding month_day_patterns_def by (simp add: foldl_append_year_map_of)

lemma month_day_patterns_mem:
  "(k, ys) \<in> set (month_day_patterns ds) \<longleftrightarrow>
     ys \<noteq> [] \<and> ys = map dyear (filter (\<lambda>x. (dmonth x, dday x) = k) ds)"
  using map_of_eq_Some_iff [OF distinct_month_day_patterns, of ds k ys]
  by (auto simp: map_of_month_day_patterns Let_def split: if_splits)

lemma keys_frequent_patterns:
  "map (\<lambda>p. (month p, day p)) (concat (map (frequent_pattern cd) g)) =
     map fst (filter (\<lambda>kv. 2 \<le> length (snd kv)) g)"
  by (induction g) auto

lemma distinct_map_fst_filter:
  "distinct (map fst g) \<Longrightarrow> distinct (map fst (filter P g))"
  by (induction g) auto

lemma length_filter_sort_key:
  "length (filter P (sort_key f xs)) = length (filter P xs)"
  by (simp add: filter_sort)

lemma analyze_company_pattern_enough_dates:
  assumes "min_frequency \<le> int (length (historical_dates_of company_data))"
  shows "(case analyze_company_pattern_with_freq company_data company_name min_frequency of
            None \<Rightarrow> [] | Some ps \<Rightarrow> ps) =
         concat (map (frequent_pattern company_data)
           (month_day_patterns (sort_key toordinal (historical_dates_of company_data))))"
  using assms by (simp add: analyze_company_pattern_with_freq_def Let_def)

subsection \<open>Which groups become patterns\<close>

lemma retained_groups_enough_dates:
  assumes "min_frequency \<le> int (length (historical_dates_of company_data))"
  shows "distinct (map (\<lambda>p. (month p, day p))
            (case analyze_company_pattern_with_freq company_data company_name min_frequency of
               None \<Rightarrow> [] | Some ps \<Rightarrow> ps))
    \<and> (\<forall>m d. (m, d) \<in> set (map (\<lambda>p. (month p, day p))
            (case analyze_company_pattern_with_freq company_data company_name min_frequency of
               None \<Rightarrow> [] | Some ps \<Rightarrow> ps))
         \<longleftrightarrow> 2 \<le> length (filter (\<lambda>x. dmonth x = m \<and> dday x = d)
                          (historical_dates_of company_data)))"
proof -
  let ?ds = "sort_key toordinal (historical_dates_of company_data)"
  let ?g = "month_day_patterns ?ds"
  let ?fp = "concat (map (frequent_pattern company_data) ?g)"
  have d: "distinct (map (\<lambda>p. (month p, day p)) ?fp)"
    by (simp only: keys_frequent_patterns distinct_map_fst_filter distinct_month_day_patterns)
  have m: "(m, d) \<in> set (map (\<lambda>p. (month p, day p)) ?fp)
         \<longleftrightarrow> 2 \<le> length (filter (\<lambda>x. dmonth x = m \<and> dday x = d) (historical_dates_of company_data))"
    for m d
  proof -
    have "(m, d) \<in> set (map (\<lambda>p. (month p, day p)) ?fp)
        \<longleftrightarrow> (\<exists>ys. ((m, d), ys) \<in> set ?g \<and> 2 \<le> length ys)"
      by (simp only: keys_frequent_patterns) force
    also have "\<dots> \<longleftrightarrow> 2 \<le> length (filter (\<lambda>x. (dmonth x, dday x) = (m, d)) ?ds)"
      by (auto simp: month_day_patterns_mem)
    also have "\<dots> \<longleftrightarrow> 2 \<le> length (filter (\<lambda>x. dmonth x = m \<and> dday x = d)
                                   (historical_dates_of company_data))"
      by (simp add: length_filter_sort_key)
    finally show ?thesis .
  qed
  show ?thesis
    unfolding analyze_company_pattern_enough_dates [OF assms] using d m by blast
qed

lemma too_few_dates_no_pattern:
  "int (length (historical_dates_of company_data)) < min_frequency \<Longrightarrow>
   analyze_company_pattern_with_freq company_data company_name min_frequency = None"
  by (simp add: analyze_company_pattern_with_freq_def Let_def)

text \<open>
  C1, as the code has it. The test on a group is \<^verbatim>\<open>len(years) >= 2\<close> on the list of the
  years of its dates, one entry per record, so a group is retained exactly when the company
  has at least two records on that (month, day), whether or not their years differ; and
  \<^verbatim>\<open>min_frequency\<close> gates the whole company: with fewer dated records than
  \<^verbatim>\<open>min_frequency\<close> the function returns \<^verbatim>\<open>None\<close>. When the company has at least
  \<^verbatim>\<open>min_frequency\<close> dated records, the patterns returned have pairwise different
  (month, day) keys (one pattern per retained group), and a key occurs among them if and
  only if at least two of the dated records fall on it.
\<close>

theorem retained_groups_have_two_records:
  "(int (length (historical_dates_of company_data)) < min_frequency \<longrightarrow>
      analyze_company_pattern_with_freq company_data company_name min_frequency = None)
   \<and> (min_frequency \<le> int (length (historical_dates_of company_data)) \<longrightarrow>
      distinct (map (\<lambda>p. (month p, day p))
            (case analyze_company_pattern_with_freq company_data company_name min_frequency of
               None \<Rightarrow> [] | Some ps \<Rightarrow> ps))
      \<and> (\<forall>m d. (m, d) \<in> set (map (\<lambda>p. (month p, day p))
            (case analyze_company_pattern_with_freq company_data company_name min_frequency of
               None \<Rightarrow> [] | Some ps \<Rightarrow> ps))
         \<longleftrightarrow> 2 \<le> length (filter (\<lambda>x. dmonth x = m \<and> dday x = d)
                          (historical_dates_of company_data))))"
  using too_few_dates_no_pattern [of company_data min_frequency company_name]
    retained_groups_enough_dates [of min_frequency company_data company_name]
  by blast

lemma alpha_df_dates: "historical_dates_of alpha_df =
    [\<lparr>dyear = 2022, dmonth = 3, dday = 15\<rparr>, \<lparr>dyear = 2023, dmonth = 3, dday = 15\<rparr>]"
  by (simp add: historical_dates_of_def alpha_df_def mk_row_def List.map_filter_simps)

theorem retained_groups_have_two_records_witness:
  "(2 :: int) \<le> int (length (historical_dates_of alpha_df))
   \<and> (3, 15) \<in> set (map (\<lambda>p. (month p, day p))
        (case analyze_company_pattern_with_freq alpha_df ''Alpha (ALP)'' 2 of
           None \<Rightarrow> [] | Some ps \<Rightarrow> ps))
   \<and> (3, 16) \<notin> set (map (\<lambda>p. (month p, day p))
        (case analyze_company_pattern_with_freq alpha_df ''Alpha (ALP)'' 2 of
           None \<Rightarrow> [] | Some ps \<Rightarrow> ps))
   \<and> int (length (historical_dates_of alpha_df)) < 3
   \<and> analyze_company_pattern_with_freq alpha_df ''Alpha (ALP)'' 3 = None"
proof -
  have h: "(2 :: int) \<le> int (length (historical_dates_of alpha_df))"
    by (simp add: alpha_df_dates)
  have h': "int (length (historical_dates_of alpha_df)) < 3"
    by (simp add: alpha_df_dates)
  from retained_groups_have_two_records [of alpha_df 2 "''Alpha (ALP)''"]
       retained_groups_have_two_records [of alpha_df 3 "''Alpha (ALP)''"] h h'
  show ?thesis
    by (simp add: alpha_df_dates)
qed

text \<open>
  C1 as stated fails: two records of one company on the same date (15.03.2022, say a
  regular and a special dividend) form a group with one distinct year, and the group
  yields a pattern of frequency 2.
\<close>

theorem one_year_group_yields_pattern:
  "remdups (map dyear (historical_dates_of same_day_df)) = [2022]
   \<and> analyze_company_pattern_with_freq same_day_df ''Alpha (ALP)'' 2 =
       Some [\<lparr>month = 3, day = 15, frequency = 2, last_year = 2022, avg_dividend = 3 / 4,
              years = [2022, 2022]\<rparr>]"
  by code_simp

subsection \<open>The scenario of the specification\<close>

text \<open>
  C2. The store holds "Alpha (ALP)" with ex-dates 15.03.2022 and 15.03.2023 and amounts
  1.0 and 1.2; with a minimum frequency of 2, today 2024-03-01 and a horizon of 30 days,
  mining followed by prediction returns exactly one prediction, for 15.03.2024, 14 days
  ahead, frequency 2, last occurrence 2023, average dividend 1.1 and confidence 58.0.
\<close>

theorem alpha_scenario:
  "predict_upcoming_announcements (analyze_dividend_patterns alpha_df 2 march_2024) 30 march_2024 =
     [\<lparr>pred_company = ''Alpha (ALP)'',
       predicted_ex_date = \<lparr>dyear = 2024, dmonth = 3, dday = 15\<rparr>,
       days_until = 14, pred_frequency = 2, last_occurrence = 2023,
       pred_avg_dividend = 11 / 10, confidence = 58, pattern_years = ''2022, 2023''\<rparr>]"
  by code_simp

subsection \<open>Companies with a recent or a future record\<close>

lemma analyze_company_keys:
  "fst ` set (analyze_company df min_frequency today c) \<subseteq> {c}"
  by (auto simp: analyze_company_def Let_def split: if_splits option.splits)

lemma analyze_company_recent:
  assumes "r \<in> set df" "is_recent today r"
  shows "analyze_company df min_frequency today (company r) = []"
proof -
  have "r \<in> set (filter (is_recent today) (filter (\<lambda>q. company q = company r) df))"
    using assms by simp
  then have "filter (is_recent today) (filter (\<lambda>q. company q = company r) df) \<noteq> []"
    by (metis empty_iff list.set(1))
  then show ?thesis
    by (simp add: analyze_company_def Let_def)
qed

lemma recent_company_skipped:
  assumes "r \<in> set df" "is_recent today r"
  shows "company r \<notin> fst ` set (analyze_dividend_patterns df min_frequency today)"
proof
  assume "company r \<in> fst ` set (analyze_dividend_patterns df min_frequency today)"
  then obtain c where c: "company r \<in> fst ` set (analyze_company df min_frequency today c)"
    by (auto simp: analyze_dividend_patterns_def)
  with analyze_company_keys [of df min_frequency today c] have "c = company r" by auto
  with c analyze_company_recent [OF assms, of min_frequency] show False by simp
qed

lemma predict_year_company:
  "p \<in> set (predict_year today days c pat y) \<Longrightarrow> pred_company p = c"
  by (auto simp: predict_year_def split: sum.splits if_splits py_error.splits)

lemma predict_company_company:
  "p \<in> set (predict_company today days cp) \<Longrightarrow> pred_company p = fst cp"
  by (auto simp: predict_company_def predict_pattern_def dest: predict_year_company)

lemma predictions_companies:
  "p \<in> set (predict_upcoming_announcements cps days today) \<Longrightarrow> pred_company p \<in> fst ` set cps"
  by (auto simp: predict_upcoming_announcements_def sort_predictions_def
      dest!: predict_company_company)

text \<open>
  C7. A company with a record whose ex-date lies in the 60 days up to today gets no entry
  in the miner's result, whatever its other records are, and no prediction of the
  pipeline names it.
\<close>

theorem recent_company_no_predictions:
  assumes "r \<in> set df" and "ex_date r = Some x"
    and "toordinal today - 60 \<le> toordinal x" and "toordinal x \<le> toordinal today"
  shows "company r \<notin> fst ` set (analyze_dividend_patterns df min_frequency today)
       \<and> filter (\<lambda>p. pred_company p = company r)
            (predict_upcoming_announcements
               (analyze_dividend_patterns df min_frequency today) prediction_days today) = []"
proof -
  have rec: "is_recent today r"
    using assms by (simp add: is_recent_def RECENT_ANNOUNCEMENT_WINDOW_def)
  have no: "company r \<notin> fst ` set (analyze_dividend_patterns df min_frequency today)"
    by (rule recent_company_skipped [OF assms(1) rec])
  moreover have "filter (\<lambda>p. pred_company p = company r)
            (predict_upcoming_announcements
               (analyze_dividend_patterns df min_frequency today) prediction_days today) = []"
  proof -
    have "pred_company p \<noteq> company r"
      if "p \<in> set (predict_upcoming_announcements
                    (analyze_dividend_patterns df min_frequency today) prediction_days today)"
      for p
      using predictions_companies [OF that] no by metis
    then show ?thesis by (simp add: filter_empty_conv)
  qed
  ultimately show ?thesis by simp
qed

theorem recent_company_no_predictions_witness:
  "recent_row \<in> set (alpha_df @ [recent_row])
   \<and> ex_date recent_row = Some \<lparr>dyear = 2024, dmonth = 2, dday = 1\<rparr>
   \<and> toordinal march_2024 - 60 \<le> toordinal \<lparr>dyear = 2024, dmonth = 2, dday = 1\<rparr>
   \<and> toordinal \<lparr>dyear = 2024, dmonth = 2, dday = 1\<rparr> \<le> toordinal march_2024
   \<and> company recent_row \<notin> fst ` set (analyze_dividend_patterns (alpha_df @ [recent_row]) 2 march_2024)
   \<and> filter (\<lambda>p. pred_company p = company recent_row)
        (predict_upcoming_announcements
           (analyze_dividend_patterns (alpha_df @ [recent_row]) 2 march_2024) 30 march_2024) = []"
proof -
  have h1: "recent_row \<in> set (alpha_df @ [recent_row])" by simp
  have h2: "ex_date recent_row = Some \<lparr>dyear = 2024, dmonth = 2, dday = 1\<rparr>"
    by (simp add: recent_row_def mk_row_def)
  have h3: "toordinal march_2024 - 60 \<le> toordinal \<lparr>dyear = 2024, dmonth = 2, dday = 1\<rparr>"
    by code_simp
  have h4: "toordinal \<lparr>dyear = 2024, dmonth = 2, dday = 1\<rparr> \<le> toordinal march_2024"
    by code_simp
  from recent_company_no_predictions [OF h1 h2 h3 h4, of 2 30] h1 h2 h3 h4
  show ?thesis by blast
qed

text \<open>
  C10. The filter has no upper bound at today: a record is recent as soon as its ex-date
  is on or after today minus 60 days, so a company with a record dated today or later
  (strictly in the future included) gets no entry in the miner's result.
\<close>

theorem future_record_company_skipped:
  assumes "r \<in> set df" and "ex_date r = Some x"
    and "toordinal today \<le> toordinal x"
  shows "is_recent today r
       \<and> company r \<notin> fst ` set (analyze_dividend_patterns df min_frequency today)"
proof -
  have rec: "is_recent today r"
    using assms by (simp add: is_recent_def RECENT_ANNOUNCEMENT_WINDOW_def)
  with recent_company_skipped [OF assms(1) rec] show ?thesis by simp
qed

theorem future_record_company_skipped_witness:
  "future_row \<in> set (alpha_df @ [future_row])
   \<and> ex_date future_row = Some \<lparr>dyear = 2024, dmonth = 6, dday = 1\<rparr>
   \<and> toordinal march_2024 < toordinal \<lparr>dyear = 2024, dmonth = 6, dday = 1\<rparr>
   \<and> is_recent march_2024 future_row
   \<and> company future_row \<notin> fst ` set (analyze_dividend_patterns (alpha_df @ [future_row]) 2 march_2024)"
proof -
  have h1: "future_row \<in> set (alpha_df @ [future_row])" by simp
  have h2: "ex_date future_row = Some \<lparr>dyear = 2024, dmonth = 6, dday = 1\<rparr>"
    by (simp add: future_row_def mk_row_def)
  have h3: "toordinal march_2024 < toordinal \<lparr>dyear = 2024, dmonth = 6, dday = 1\<rparr>"
    by code_simp
  then have h3': "toordinal march_2024 \<le> toordinal \<lparr>dyear = 2024, dmonth = 6, dday = 1\<rparr>"
    by simp
  from future_record_company_skipped [OF h1 h2 h3', of 2] h1 h2 h3
  show ?thesis by blast
qed

subsection \<open>Candidate years with an invalid date\<close>

lemma predict_year_invalid:
  "datetime_date y (month p) (day p) = Inl ValueError \<Longrightarrow> predict_year today days c p y = []"
  by (simp add: predict_year_def)

lemma concat_map_filter_nonempty:
  "(\<And>x. x \<in> set xs \<Longrightarrow> \<not> P x \<Longrightarrow> f x = []) \<Longrightarrow> concat (map f (filter P xs)) = concat (map f xs)"
  by (induction xs) auto

lemma predict_pattern_valid_years:
  "predict_pattern today days c p =
     concat (map (predict_year today days c p)
       (filter (\<lambda>y. datetime_date y (month p) (day p) \<noteq> Inl ValueError)
          [dyear today, dyear today + 1]))"
  unfolding predict_pattern_def
  by (rule concat_map_filter_nonempty [symmetric]) (simp add: predict_year_invalid)

text \<open>
  C8. The \<^verbatim>\<open>ValueError\<close> of the date constructor is caught: a candidate year in which the
  pattern's (month, day) is no date contributes no prediction and nothing else, and the
  whole result is the sorted list of what the valid candidate years of every pattern
  contribute, in the order of the loops.
\<close>

theorem invalid_candidate_year_discarded:
  "(datetime_date y (month p) (day p) = Inl ValueError
      \<longrightarrow> predict_year today prediction_days c p y = [])
   \<and> predict_upcoming_announcements company_patterns prediction_days today =
     sort_predictions (concat (map (\<lambda>cp.
       concat (map (\<lambda>q.
         concat (map (predict_year today prediction_days (fst cp) q)
           (filter (\<lambda>y'. datetime_date y' (month q) (day q) \<noteq> Inl ValueError)
              [dyear today, dyear today + 1])))
         (snd cp))) company_patterns))"
proof -
  have "predict_company today prediction_days = (\<lambda>cp.
       concat (map (\<lambda>q.
         concat (map (predict_year today prediction_days (fst cp) q)
           (filter (\<lambda>y'. datetime_date y' (month q) (day q) \<noteq> Inl ValueError)
              [dyear today, dyear today + 1])))
         (snd cp)))"
  proof (rule ext)
    fix cp :: "string \<times> pattern list"
    have "predict_pattern today prediction_days (fst cp) = (\<lambda>q.
         concat (map (predict_year today prediction_days (fst cp) q)
           (filter (\<lambda>y'. datetime_date y' (month q) (day q) \<noteq> Inl ValueError)
              [dyear today, dyear today + 1])))"
      by (rule ext) (rule predict_pattern_valid_years)
    then show "predict_company today prediction_days cp =
       concat (map (\<lambda>q.
         concat (map (predict_year today prediction_days (fst cp) q)
           (filter (\<lambda>y'. datetime_date y' (month q) (day q) \<noteq> Inl ValueError)
              [dyear today, dyear today + 1])))
         (snd cp))"
      by (simp only: predict_company_def)
  qed
  then have total: "predict_upcoming_announcements company_patterns prediction_days today =
     sort_predictions (concat (map (\<lambda>cp.
       concat (map (\<lambda>q.
         concat (map (predict_year today prediction_days (fst cp) q)
           (filter (\<lambda>y'. datetime_date y' (month q) (day q) \<noteq> Inl ValueError)
              [dyear today, dyear today + 1])))
         (snd cp))) company_patterns))"
    by (simp only: predict_upcoming_announcements_def)
  have discard: "datetime_date y (month p) (day p) = Inl ValueError
      \<longrightarrow> predict_year today prediction_days c p y = []"
    by (simp add: predict_year_invalid)
  from discard total show ?thesis by (rule conjI)
qed

theorem invalid_candidate_year_discarded_witness:
  "datetime_date 2025 (month leap_day_pattern) (day leap_day_pattern) = Inl ValueError
   \<and> predict_year feb_2025 30 ''Alpha (ALP)'' leap_day_pattern 2025 = []
   \<and> predict_upcoming_announcements
       [(''Alpha (ALP)'', [leap_day_pattern, mid_march_pattern])] 30 feb_2025 =
     [\<lparr>pred_company = ''Alpha (ALP)'',
       predicted_ex_date = \<lparr>dyear = 2025, dmonth = 3, dday = 15\<rparr>,
       days_until = 23, pred_frequency = 2, last_occurrence = 2023,
       pred_avg_dividend = 11 / 10, confidence = 52, pattern_years = ''2022, 2023''\<rparr>]"
proof -
  have h: "datetime_date 2025 (month leap_day_pattern) (day leap_day_pattern) = Inl ValueError"
    by code_simp
  have e: "predict_upcoming_announcements
       [(''Alpha (ALP)'', [leap_day_pattern, mid_march_pattern])] 30 feb_2025 =
     [\<lparr>pred_company = ''Alpha (ALP)'',
       predicted_ex_date = \<lparr>dyear = 2025, dmonth = 3, dday = 15\<rparr>,
       days_until = 23, pred_frequency = 2, last_occurrence = 2023,
       pred_avg_dividend = 11 / 10, confidence = 52, pattern_years = ''2022, 2023''\<rparr>]"
    by code_simp
  from invalid_candidate_year_discarded
         [of 2025 leap_day_pattern feb_2025 30 "''Alpha (ALP)''"] h e
  show ?thesis by blast
qed

subsection \<open>The confidence score\<close>

lemma round1_range:
  assumes "0 \<le> x" "x \<le> 100"
  shows "0 \<le> round1 x \<and> round1 x \<le> 100"
proof -
  define t where "t = x * 10"
  define f where "f = \<lfloor>t\<rfloor>"
  define r where "r = t - of_int f"
  define k where "k = (if r < 1 / 2 then f else if 1 / 2 < r then f + 1
                 else if even f then f else f + 1)"
  have t: "0 \<le> t" "t \<le> 1000" using assms by (simp_all add: t_def)
  have f0: "0 \<le> f" using t by (simp add: f_def)
  have f1: "f \<le> 1000" using t by (simp add: f_def floor_le_iff)
  have "r = 0" if "f = 1000"
  proof -
    have "of_int f \<le> t" by (simp add: f_def)
    with t that show ?thesis by (simp add: r_def)
  qed
  then have "k = f \<or> (k = f + 1 \<and> f \<noteq> 1000)"
    by (auto simp: k_def)
  with f0 f1 have k: "0 \<le> k" "k \<le> 1000" by auto
  have "round1 x = of_int k / 10"
    by (simp add: round1_def Let_def k_def r_def f_def t_def)
  moreover have "(0 :: rat) \<le> of_int k" "(of_int k :: rat) \<le> 1000"
    using k by simp_all
  ultimately show ?thesis by simp
qed

text \<open>
  For a candidate year after the pattern's last year the score keeps to the documented
  scale of 0 to 100.
\<close>

lemma calculate_confidence_range:
  assumes "last_year p < y"
  shows "0 \<le> calculate_confidence p y \<and> calculate_confidence p y \<le> 100"
proof -
  define fs :: rat where "fs = min (of_nat (frequency p) / 5) 1"
  define rs :: rat where "rs = max 0 (1 - (of_int (y - last_year p) - 1) * (2 / 10))"
  have fs: "0 \<le> fs" "fs \<le> 1" by (simp_all add: fs_def)
  have "(1 :: rat) \<le> of_int (y - last_year p)" using assms by simp
  then have rs: "0 \<le> rs" "rs \<le> 1" by (simp_all add: rs_def)
  have lo: "0 \<le> (fs * (7 / 10) + rs * (3 / 10)) * 100"
    using fs(1) rs(1) by simp
  have hi: "(fs * (7 / 10) + rs * (3 / 10)) * 100 \<le> 100"
    using fs(2) rs(2) by simp
  have "calculate_confidence p y = round1 ((fs * (7 / 10) + rs * (3 / 10)) * 100)"
    by (simp add: calculate_confidence_def Let_def fs_def rs_def)
  with round1_range [OF lo hi] show ?thesis by simp
qed

text \<open>
  The patterns that the miner returns come from records older than the recent window, and a
  candidate date is kept only from today on; so in the pipeline the candidate year of a
  prediction is always after the last year of its pattern.
\<close>

lemma days_before_month_years:
  assumes "1 \<le> m" "m \<le> 12"
  shows "days_before_month y m \<le> days_before_month Y m + 1"
proof -
  from assms have "m = 1 \<or> m = 2 \<or> m = 3 \<or> m = 4 \<or> m = 5 \<or> m = 6 \<or> m = 7 \<or> m = 8
      \<or> m = 9 \<or> m = 10 \<or> m = 11 \<or> m = 12" by arith
  then show ?thesis
    by (elim disjE) (simp_all add: days_before_month_def days_in_month_def upto.simps)
qed

lemma toordinal_year_mono:
  assumes "1 \<le> m" "m \<le> 12" "y < Y"
  shows "toordinal \<lparr>dyear = y, dmonth = m, dday = d\<rparr> < toordinal \<lparr>dyear = Y, dmonth = m, dday = d\<rparr>"
  using days_before_year_mono [OF assms(3)] days_before_month_years [OF assms(1,2), of y Y]
  by (simp add: toordinal_def)

lemma fold_max_mem: "fold max ys (y :: int) \<in> set (y # ys)"
proof (induction ys arbitrary: y)
  case Nil
  then show ?case by simp
next
  case (Cons a ys)
  have "max a y = a \<or> max a y = y" by (simp add: max_def)
  with Cons [of "max a y"] show ?case by auto
qed

lemma frequent_pattern_last_year:
  assumes "q \<in> set (frequent_pattern cd ((m, d), ys))"
  shows "month q = m \<and> day q = d \<and> last_year q \<in> set ys"
proof -
  from assms have len: "2 \<le> length ys" by (simp split: if_splits)
  then obtain y ys' where ys: "ys = y # ys'" by (cases ys) auto
  from assms len fold_max_mem [of ys' y] show ?thesis
    by (auto simp: ys)
qed

lemma set_historical_dates_of:
  "x \<in> set (historical_dates_of cd) \<longleftrightarrow> (\<exists>r \<in> set cd. ex_date r = Some x)"
  by (force simp: historical_dates_of_def List.map_filter_def)

lemma pattern_has_record:
  assumes "analyze_company_pattern_with_freq cd name mf = Some ps" "q \<in> set ps"
  shows "\<exists>r \<in> set cd. ex_date r = Some \<lparr>dyear = last_year q, dmonth = month q, dday = day q\<rparr>"
proof -
  let ?sorted = "sort_key toordinal (historical_dates_of cd)"
  from assms(1) have "ps = concat (map (frequent_pattern cd) (month_day_patterns ?sorted))"
    by (simp add: analyze_company_pattern_with_freq_def Let_def split: if_splits)
  with assms(2) obtain kv where kv: "kv \<in> set (month_day_patterns ?sorted)"
      and q: "q \<in> set (frequent_pattern cd kv)"
    by auto
  obtain m d ys where kv_eq: "kv = ((m, d), ys)" by (cases kv) auto
  from q have ql: "month q = m \<and> day q = d \<and> last_year q \<in> set ys"
    unfolding kv_eq by (rule frequent_pattern_last_year)
  from kv have "ys = map dyear (filter (\<lambda>x. (dmonth x, dday x) = (m, d)) ?sorted)"
    unfolding kv_eq by (simp add: month_day_patterns_mem)
  with ql obtain x where x: "x \<in> set ?sorted" "dmonth x = m" "dday x = d" "dyear x = last_year q"
    by auto
  from x(1) have "x \<in> set (historical_dates_of cd)" by simp
  then obtain r where r: "r \<in> set cd" "ex_date r = Some x"
    by (auto simp: set_historical_dates_of)
  have "x = \<lparr>dyear = dyear x, dmonth = dmonth x, dday = dday x\<rparr>"
    by simp
  then have "x = \<lparr>dyear = last_year q, dmonth = month q, dday = day q\<rparr>"
    using x(2-4) ql by simp
  with r show ?thesis by auto
qed

lemma set_sort_by_ex_date: "set (sort_by_ex_date rows) = set rows"
  by (auto simp: sort_by_ex_date_def)

lemma mined_pattern_not_recent:
  assumes "(c, ps) \<in> set (analyze_dividend_patterns df mf today)" "q \<in> set ps"
  shows "toordinal \<lparr>dyear = last_year q, dmonth = month q, dday = day q\<rparr>
           < toordinal today - RECENT_ANNOUNCEMENT_WINDOW"
proof -
  from assms(1) obtain c' where c': "(c, ps) \<in> set (analyze_company df mf today c')"
    by (auto simp: analyze_dividend_patterns_def)
  let ?cd = "filter (\<lambda>r. company r = c') df"
  from c' have none: "filter (is_recent today) ?cd = []"
    and res: "analyze_company_pattern_with_freq (sort_by_ex_date ?cd) c' mf = Some ps"
    by (auto simp: analyze_company_def Let_def split: if_splits option.splits)
  from pattern_has_record [OF res assms(2)] obtain r where
    r: "r \<in> set ?cd" "ex_date r = Some \<lparr>dyear = last_year q, dmonth = month q, dday = day q\<rparr>"
    by (auto simp: set_sort_by_ex_date)
  from none r(1) have "\<not> is_recent today r"
    by (simp add: filter_empty_conv)
  with r(2) show ?thesis by (simp add: is_recent_def)
qed

lemma prediction_origin:
  assumes "p \<in> set (predict_upcoming_announcements cps days today)"
  shows "\<exists>c ps q y d. (c, ps) \<in> set cps \<and> q \<in> set ps
           \<and> datetime_date y (month q) (day q) = Inr d
           \<and> toordinal today \<le> toordinal d
           \<and> confidence p = calculate_confidence q y"
proof -
  from assms obtain c ps where cp: "(c, ps) \<in> set cps" "p \<in> set (predict_company today days (c, ps))"
    by (auto simp: predict_upcoming_announcements_def sort_predictions_def)
  then obtain q where q: "q \<in> set ps" "p \<in> set (predict_pattern today days c q)"
    by (auto simp: predict_company_def)
  then obtain y where y: "p \<in> set (predict_year today days c q y)"
    by (auto simp: predict_pattern_def)
  then obtain d where "datetime_date y (month q) (day q) = Inr d" "toordinal today \<le> toordinal d"
      "confidence p = calculate_confidence q y"
    by (auto simp: predict_year_def split: sum.splits py_error.splits if_splits)
  with cp(1) q(1) show ?thesis
    by blast
qed

lemma pipeline_candidate_after_last_year:
  assumes "(c, ps) \<in> set (analyze_dividend_patterns df mf today)" "q \<in> set ps"
    and "datetime_date y (month q) (day q) = Inr d" "toordinal today \<le> toordinal d"
  shows "last_year q < y"
proof (rule ccontr)
  assume "\<not> last_year q < y"
  then have le: "y \<le> last_year q" by simp
  from assms(3) have d: "d = \<lparr>dyear = y, dmonth = month q, dday = day q\<rparr>"
    and m: "1 \<le> month q" "month q \<le> 12"
    by (auto simp: datetime_date_def split: if_splits)
  have "toordinal d \<le> toordinal \<lparr>dyear = last_year q, dmonth = month q, dday = day q\<rparr>"
  proof (cases "y = last_year q")
    case True
    then show ?thesis by (simp add: d)
  next
    case False
    with le have "y < last_year q" by simp
    from toordinal_year_mono [OF m this, of "day q"] show ?thesis by (simp add: d)
  qed
  with mined_pattern_not_recent [OF assms(1,2)] assms(4) show False
    by (simp add: RECENT_ANNOUNCEMENT_WINDOW_def)
qed

lemma pipeline_confidence_range:
  assumes "p \<in> set (predict_upcoming_announcements
                     (analyze_dividend_patterns df mf today) days today)"
  shows "0 \<le> confidence p \<and> confidence p \<le> 100"
proof -
  from prediction_origin [OF assms] obtain c ps q y d where
    o: "(c, ps) \<in> set (analyze_dividend_patterns df mf today)" "q \<in> set ps"
       "datetime_date y (month q) (day q) = Inr d" "toordinal today \<le> toordinal d"
       "confidence p = calculate_confidence q y"
    by blast
  from pipeline_candidate_after_last_year [OF o(1-4)] have "last_year q < y" .
  from calculate_confidence_range [OF this] o(5) show ?thesis by simp
qed

text \<open>
  The score is the rounded weighted sum of the two scores for every candidate year, and it
  is a multiple of 0.1.
\<close>

lemma calculate_confidence_formula:
  "calculate_confidence p y =
     round1 ((7 / 10 * min (of_nat (frequency p) / 5) 1
              + 3 / 10 * max 0 (1 - (of_int (y - last_year p) - 1) * (2 / 10))) * 100)
   \<and> (\<exists>k :: int. calculate_confidence p y = of_int k / 10)"
proof
  show "calculate_confidence p y =
        round1 ((7 / 10 * min (of_nat (frequency p) / 5) 1
                 + 3 / 10 * max 0 (1 - (of_int (y - last_year p) - 1) * (2 / 10))) * 100)"
    by (simp add: calculate_confidence_def Let_def mult.commute)
  show "\<exists>k :: int. calculate_confidence p y = of_int k / 10"
    unfolding calculate_confidence_def round1_def Let_def by (rule exI) (rule refl)
qed


section \<open>Properties of the updater\<close>

subsection \<open>Duplicates against the store\<close>

lemma is_duplicate_entry_cases:
  fixes r df_csv
  defines "P \<equiv> \<lambda>e. normalize_company_name (company e) = normalize_company_name (name_without_acronym (company r))
        \<and> same_ex_date e r \<and> amount_close e r"
  shows "is_duplicate_entry r df_csv =
           (if \<exists>e \<in> set df_csv. P e then (True, Some ExactMatch) else (False, None))"
proof (cases "\<exists>e \<in> set df_csv. P e")
  case True
  then have "filter P df_csv \<noteq> []"
    by (simp add: filter_empty_conv)
  then show ?thesis
    using True by (simp add: is_duplicate_entry_def Let_def P_def)
next
  case False
  then have empty: "filter P df_csv = []"
    by (simp add: filter_empty_conv)
  have "\<not> (\<exists>x. x \<in> set (filter (\<lambda>e. same_ex_date e r) df_csv) \<and> amount_close x r
                 \<and> normalize_company_name (company x) = normalize_company_name (name_without_acronym (company r)))"
    using False by (auto simp: P_def)
  then have "find (\<lambda>existing. amount_close existing r
                 \<and> normalize_company_name (company existing) = normalize_company_name (name_without_acronym (company r)))
               (filter (\<lambda>e. same_ex_date e r) df_csv) = None"
    by (simp only: find_None_iff simp_thms)
  with empty False show ?thesis
    by (simp add: is_duplicate_entry_def Let_def P_def)
qed

text \<open>
  The tolerance test in float arithmetic: \<^verbatim>\<open>0.01\<close> is the float
  \<open>5764607523034235 / 2 ^ 59\<close>, a little above one hundredth. The amounts 0.1 and 0.11
  are close (their floats differ by a little less than the float 0.01, although
  the decimals differ by a full hundredth), the amounts 1.0 and 1.01 are not.
\<close>

lemma float64_round_zero: "float64_round 0 = 0"
  by (simp add: float64_round_def)

lemma float64_hundredth: "float64_round (1 / 100) = 5764607523034235 / 576460752303423488"
  by code_simp

lemma amount_close_refl: "amount_close r r"
  by (simp add: amount_close_def float64_round_zero float64_hundredth)

lemma amount_close_float64:
  "amount_close (mk_row ''Beta (BET)'' 2024 3 15 (1 / 10)) (mk_row ''Beta (BET)'' 2024 3 15 (11 / 100))
   \<and> \<not> amount_close (mk_row ''Beta (BET)'' 2024 3 15 1) (mk_row ''Beta (BET)'' 2024 3 15 (101 / 100))"
  by code_simp

subsection \<open>Names that normalise alike, whole and cut at the parenthesis\<close>

text \<open>
  \<^verbatim>\<open>is_duplicate_entry\<close> normalises the name of a stored row whole and the name of the new
  row after cutting it at its first opening parenthesis. For a name without a parenthesis
  and for a name of the shape "Name (CODE)", the code holding a visible character and no
  closing parenthesis, the two ways give the same text.
\<close>

lemma filter_dropWhile_space:
  "filter (\<lambda>c. \<not> is_space c) (dropWhile is_space s) = filter (\<lambda>c. \<not> is_space c) s"
  by (induction s) auto

lemma filter_strip:
  "filter (\<lambda>c. \<not> is_space c) (strip s) = filter (\<lambda>c. \<not> is_space c) s"
proof -
  have "filter (\<lambda>c. \<not> is_space c) (strip s)
        = rev (filter (\<lambda>c. \<not> is_space c) (dropWhile is_space (rev (dropWhile is_space s))))"
    by (simp add: strip_def rev_filter)
  also have "\<dots> = rev (filter (\<lambda>c. \<not> is_space c) (rev (dropWhile is_space s)))"
    by (simp only: filter_dropWhile_space)
  also have "\<dots> = filter (\<lambda>c. \<not> is_space c) (dropWhile is_space s)"
    by (simp add: rev_filter)
  finally show ?thesis by (simp add: filter_dropWhile_space)
qed

lemma set_strip: "set (strip s) \<subseteq> set s"
proof
  fix x
  assume "x \<in> set (strip s)"
  then have "x \<in> set (dropWhile is_space (rev (dropWhile is_space s)))"
    by (simp add: strip_def)
  then have "x \<in> set (rev (dropWhile is_space s))"
    by (rule set_dropWhileD)
  then have "x \<in> set (dropWhile is_space s)"
    by simp
  then show "x \<in> set s"
    by (rule set_dropWhileD)
qed

lemma strip_no_space:
  assumes "\<forall>c \<in> set s. \<not> is_space c"
  shows "strip s = s"
proof -
  have a: "dropWhile is_space t = t" if "\<forall>c \<in> set t. \<not> is_space c" for t
    using that by (cases t) auto
  from assms have "\<forall>c \<in> set (rev s). \<not> is_space c" by simp
  with a [of s] a [of "rev s"] assms show ?thesis
    by (simp add: strip_def)
qed

lemma remove_parenthesised_append:
  "CHR ''('' \<notin> set s \<Longrightarrow> remove_parenthesised (s @ t) = s @ remove_parenthesised t"
  by (induction s) auto

lemma remove_parenthesised_plain:
  "CHR ''('' \<notin> set s \<Longrightarrow> remove_parenthesised s = s"
  using remove_parenthesised_append [of s "[]"] by simp

lemma normalize_plain:
  assumes "CHR ''('' \<notin> set s"
  shows "normalize_company_name s = filter (\<lambda>c. \<not> is_space c) s"
proof -
  from assms have "CHR ''('' \<notin> set (filter (\<lambda>c. \<not> is_space c) s)" by simp
  then have "remove_parenthesised (filter (\<lambda>c. \<not> is_space c) s) = filter (\<lambda>c. \<not> is_space c) s"
    by (rule remove_parenthesised_plain)
  then show ?thesis
    by (simp add: normalize_company_name_def strip_no_space)
qed

lemma plain_name_normalises_alike:
  assumes "CHR ''('' \<notin> set c"
  shows "normalize_company_name (name_without_acronym c) = normalize_company_name c"
proof (cases "c = []")
  case True
  then show ?thesis by (simp add: name_without_acronym_def)
next
  case False
  from assms have "\<forall>x \<in> set c. x \<noteq> CHR ''(''" by blast
  then have tw: "takeWhile (\<lambda>x. x \<noteq> CHR ''('') c = c"
    by (simp add: takeWhile_eq_all_conv)
  have n: "name_without_acronym c = strip c"
    unfolding name_without_acronym_def tw Let_def using False by simp
  from set_strip [of c] assms have "CHR ''('' \<notin> set (strip c)" by auto
  from normalize_plain [OF this] normalize_plain [OF assms] show ?thesis
    by (simp add: n filter_strip)
qed

lemma name_code_normalises_alike:
  assumes n: "CHR ''('' \<notin> set n" and c: "CHR '')'' \<notin> set code"
    and v: "\<exists>x \<in> set code. \<not> is_space x"
  shows "normalize_company_name (name_without_acronym (n @ '' ('' @ code @ '')''))
         = normalize_company_name (n @ '' ('' @ code @ '')'')"
proof -
  let ?f = "filter (\<lambda>c. \<not> is_space c)"
  have sp: "is_space CHR '' ''" "\<not> is_space CHR ''(''" "\<not> is_space CHR '')''"
    by (simp_all add: is_space_def)
  have fn: "CHR ''('' \<notin> set (?f n)" using n by simp
  have fc: "CHR '')'' \<notin> set (?f code)" using c by simp
  from v have ne: "?f code \<noteq> []" by (simp add: filter_empty_conv)
  from fc have fc': "\<And>x. x \<in> set (?f code) \<Longrightarrow> x \<noteq> CHR '')''" by blast
  have tw: "takeWhile (\<lambda>x. x \<noteq> CHR '')'') (?f code @ '')'') = ?f code"
    by (simp only: takeWhile_append2 [of "?f code" "\<lambda>x. x \<noteq> CHR '')''", OF fc']) simp
  have dw: "dropWhile (\<lambda>x. x \<noteq> CHR '')'') (?f code @ '')'') = '')''"
    by (simp only: dropWhile_append2 [of "?f code" "\<lambda>x. x \<noteq> CHR '')''", OF fc']) simp
  have "remove_parenthesised (CHR ''('' # ?f code @ '')'') = []"
    using ne by (simp add: tw dw)
  then have whole: "remove_parenthesised (?f (n @ '' ('' @ code @ '')'')) = ?f n"
    using remove_parenthesised_append [OF fn, of "CHR ''('' # ?f code @ '')''"]
    by (simp add: sp)
  have rhs: "normalize_company_name (n @ '' ('' @ code @ '')'') = ?f n"
    by (simp only: normalize_company_name_def whole) (simp add: strip_no_space)
  from n have n': "\<And>x. x \<in> set n \<Longrightarrow> x \<noteq> CHR ''(''" by blast
  have cut: "takeWhile (\<lambda>x. x \<noteq> CHR ''('') (n @ '' ('' @ code @ '')'') = n @ '' ''"
    by (simp only: takeWhile_append2 [of n "\<lambda>x. x \<noteq> CHR ''(''", OF n']) simp
  have nwa: "name_without_acronym (n @ '' ('' @ code @ '')'') = strip (n @ '' '')"
    unfolding name_without_acronym_def cut Let_def by simp
  from set_strip [of "n @ '' ''"] n have "CHR ''('' \<notin> set (strip (n @ '' ''))" by auto
  from normalize_plain [OF this] have lhs: "normalize_company_name (strip (n @ '' '')) = ?f n"
    by (simp add: filter_strip sp)
  show ?thesis by (simp only: nwa lhs rhs)
qed

subsection \<open>The duplicate test\<close>

text \<open>
  C3, for a new row whose company name normalises to the same text whole and cut at its
  first opening parenthesis. Both tests of \<^verbatim>\<open>is_duplicate_entry\<close> require the normalised
  company names to be equal: the loop over the rows of the same date repeats the conditions
  of the first test, so it never decides anything. Such a row is a duplicate if and only if
  the store has a row with the same normalised company name, the same ex-date and an amount
  that passes the float test \<^verbatim>\<open>abs(stored - new) < 0.01\<close>. For every new row the answer is
  either "duplicate, exact match" or "no duplicate"; the second reason is never given.
\<close>

theorem duplicate_iff_same_name_date_amount:
  "(normalize_company_name (name_without_acronym (company r)) = normalize_company_name (company r)
      \<longrightarrow> (fst (is_duplicate_entry r df_csv) \<longleftrightarrow>
            (\<exists>e \<in> set df_csv.
               normalize_company_name (company e) = normalize_company_name (company r)
               \<and> same_ex_date e r \<and> amount_close e r)))
   \<and> (is_duplicate_entry r df_csv = (True, Some ExactMatch)
        \<or> is_duplicate_entry r df_csv = (False, None))"
  by (simp add: is_duplicate_entry_cases)

theorem duplicate_iff_same_name_date_amount_witness:
  "normalize_company_name (name_without_acronym (company alpha_again))
     = normalize_company_name (company alpha_again)
   \<and> fst (is_duplicate_entry alpha_again alpha_df)
   \<and> (\<exists>e \<in> set alpha_df.
         normalize_company_name (company e) = normalize_company_name (company alpha_again)
         \<and> same_ex_date e alpha_again \<and> amount_close e alpha_again)
   \<and> is_duplicate_entry alpha_again alpha_df = (True, Some ExactMatch)"
proof -
  have h: "normalize_company_name (name_without_acronym (company alpha_again))
             = normalize_company_name (company alpha_again)"
    by code_simp
  have v: "is_duplicate_entry alpha_again alpha_df = (True, Some ExactMatch)"
    by code_simp
  then have d: "fst (is_duplicate_entry alpha_again alpha_df)"
    by simp
  from duplicate_iff_same_name_date_amount [of alpha_again alpha_df] h d v
  show ?thesis by blast
qed

text \<open>
  C3 as stated fails: the store holds "Beta (BET)" with the ex-date 15.03.2024 and the
  amount 1.0; the new row "Alpha (ALP)" of the same date and amount is not a duplicate.
\<close>

theorem other_company_same_date_amount_not_duplicate:
  "same_ex_date (mk_row ''Beta (BET)'' 2024 3 15 1) (mk_row ''Alpha (ALP)'' 2024 3 15 1)
   \<and> amount_close (mk_row ''Beta (BET)'' 2024 3 15 1) (mk_row ''Alpha (ALP)'' 2024 3 15 1)
   \<and> is_duplicate_entry (mk_row ''Alpha (ALP)'' 2024 3 15 1) beta_store = (False, None)"
  by code_simp

subsection \<open>Duplicates within the markdown file\<close>

lemma parse_line_cases:
  "fst (parse_line f [] parts) = [] \<or> (\<exists>e. fst (parse_line f [] parts) = [e])"
  by (simp add: parse_line_def Let_def split: option.splits sum.splits py_error.splits)

lemma parse_line_seen:
  "fst (parse_line f seen parts) =
     filter (\<lambda>e. entry_key_of e \<notin> set seen) (fst (parse_line f [] parts))"
  by (simp add: parse_line_def Let_def entry_key_of_def split: option.splits sum.splits py_error.splits)

lemma fst_parse_lines_Cons:
  "fst (parse_lines f seen (parts # rest)) =
     fst (parse_line f seen parts)
       @ fst (parse_lines f (seen @ map entry_key_of (fst (parse_line f seen parts))) rest)"
  by (simp add: Let_def split: prod.splits)

lemma filter_seen_snoc:
  "filter (\<lambda>x. entry_key_of x \<notin> set (seen @ [k])) xs =
     filter (\<lambda>x. entry_key_of x \<noteq> k) (filter (\<lambda>x. entry_key_of x \<notin> set seen) xs)"
  by (induction xs) auto

lemma parse_lines_first_of_each_key:
  "fst (parse_lines f seen ls) =
     first_of_each_key (filter (\<lambda>e. entry_key_of e \<notin> set seen) (validated_entries f ls))"
proof (induction ls arbitrary: seen)
  case Nil
  then show ?case by (simp add: validated_entries_def)
next
  case (Cons parts rest)
  define v where "v = fst (parse_line f [] parts)"
  define rv where "rv = validated_entries f rest"
  define kept where "kept = fst (parse_line f seen parts)"
  have val: "validated_entries f (parts # rest) = v @ rv"
    by (simp add: validated_entries_def v_def rv_def)
  have kept: "kept = filter (\<lambda>e. entry_key_of e \<notin> set seen) v"
    unfolding kept_def v_def by (rule parse_line_seen)
  have step: "fst (parse_lines f seen (parts # rest)) =
      kept @ first_of_each_key (filter (\<lambda>e. entry_key_of e \<notin> set (seen @ map entry_key_of kept)) rv)"
    unfolding kept_def rv_def by (simp only: fst_parse_lines_Cons Cons.IH)
  have goal: "kept @ first_of_each_key (filter (\<lambda>e. entry_key_of e \<notin> set (seen @ map entry_key_of kept)) rv)
      = first_of_each_key (filter (\<lambda>e. entry_key_of e \<notin> set seen) (v @ rv))"
  proof -
    from parse_line_cases [of f parts] have "v = [] \<or> (\<exists>e. v = [e])"
      by (simp add: v_def)
    then show ?thesis
    proof
      assume "v = []"
      then show ?thesis by (simp add: kept)
    next
      assume "\<exists>e. v = [e]"
      then obtain e where e: "v = [e]" ..
      show ?thesis
      proof (cases "entry_key_of e \<in> set seen")
        case True
        then show ?thesis by (simp add: kept e)
      next
        case False
        then have k: "kept = [e]" by (simp add: kept e)
        have a: "filter (\<lambda>x. entry_key_of x \<notin> set seen) (v @ rv)
            = e # filter (\<lambda>x. entry_key_of x \<notin> set seen) rv"
          using False by (simp add: e)
        have b: "filter (\<lambda>x. entry_key_of x \<notin> set (seen @ map entry_key_of kept)) rv
            = filter (\<lambda>x. entry_key_of x \<noteq> entry_key_of e)
                (filter (\<lambda>x. entry_key_of x \<notin> set seen) rv)"
          using filter_seen_snoc [of seen "entry_key_of e" rv] by (simp add: k)
        show ?thesis
          unfolding a b by (simp add: k)
      qed
    qed
  qed
  show ?case by (simp only: step goal val)
qed

lemma set_first_of_each_key: "entry_key_of ` set (first_of_each_key es) = entry_key_of ` set es"
  by (induction es rule: first_of_each_key.induct) auto

lemma set_first_of_each_key_subset: "set (first_of_each_key es) \<subseteq> set es"
  by (induction es rule: first_of_each_key.induct) auto

lemma distinct_first_of_each_key: "distinct (map entry_key_of (first_of_each_key es))"
proof (induction es rule: first_of_each_key.induct)
  case 1
  then show ?case by simp
next
  case (2 e es)
  have "entry_key_of e \<notin> entry_key_of ` set (first_of_each_key (filter (\<lambda>x. entry_key_of x \<noteq> entry_key_of e) es))"
    using set_first_of_each_key_subset [of "filter (\<lambda>x. entry_key_of x \<noteq> entry_key_of e) es"] by auto
  with 2 show ?case by simp
qed

lemma fst_parse_md_file: "fst (parse_md_file f ls) = fst (parse_lines f [] ls)"
  by (simp add: parse_md_file_def split: prod.splits)

lemma parse_line_duplicate_notice:
  assumes "fst (parse_line f [] parts) = [e]" "entry_key_of e \<in> set seen"
  shows "parse_line f seen parts = ([], [DuplicateInMD (e_company e) (e_ex_date e)])"
  using assms
  by (auto simp: parse_line_def Let_def entry_key_of_def
      split: if_splits option.splits sum.splits py_error.splits)

text \<open>
  C4, as the code has it. The key of an entry is its display name in the shape
  "Name (CODE)" that the parser gives it (not the name normalised by
  \<^verbatim>\<open>normalize_company_name\<close>), the ex-date text as written and the amount. Among the
  entries of the lines that pass the validation, the parser keeps the first entry of each
  key, in order: the keys of the entries returned are pairwise different, and every key of
  a validated entry is the key of an entry returned. A line whose entry has a key seen
  before gives no entry and the notice "Skipping duplicate in MD file".
\<close>

theorem within_batch_first_of_each_key:
  "fst (parse_md_file float_of content_lines)
     = first_of_each_key (validated_entries float_of content_lines)
   \<and> distinct (map entry_key_of (fst (parse_md_file float_of content_lines)))
   \<and> entry_key_of ` set (fst (parse_md_file float_of content_lines))
       = entry_key_of ` set (validated_entries float_of content_lines)
   \<and> (fst (parse_line float_of [] parts) = [e] \<and> entry_key_of e \<in> set seen \<longrightarrow>
        parse_line float_of seen parts = ([], [DuplicateInMD (e_company e) (e_ex_date e)]))"
proof -
  have "fst (parse_md_file float_of content_lines)
      = first_of_each_key (validated_entries float_of content_lines)"
    by (simp add: fst_parse_md_file parse_lines_first_of_each_key)
  then have "fst (parse_md_file float_of content_lines)
     = first_of_each_key (validated_entries float_of content_lines)
   \<and> distinct (map entry_key_of (fst (parse_md_file float_of content_lines)))
   \<and> entry_key_of ` set (fst (parse_md_file float_of content_lines))
       = entry_key_of ` set (validated_entries float_of content_lines)"
    by (simp only: distinct_first_of_each_key set_first_of_each_key simp_thms)
  then show ?thesis
    using parse_line_duplicate_notice [of float_of parts e seen] by blast
qed

theorem within_batch_first_of_each_key_witness:
  "fst (parse_line float_decimal [] good_line) = [good_entry]
   \<and> entry_key_of good_entry \<in> set [entry_key_of good_entry]
   \<and> parse_line float_decimal [entry_key_of good_entry] good_line
       = ([], [DuplicateInMD ''Alpha (ALP)'' ''15.03.2024''])
   \<and> parse_md_file float_decimal [good_line, other_code_line, good_line]
       = ([good_entry, good_entry\<lparr>e_company := ''Alpha (ALQ)''\<rparr>], 2,
          [ParsedEntry ''Alpha (ALP)'', ParsedEntry ''Alpha (ALQ)'',
           DuplicateInMD ''Alpha (ALP)'' ''15.03.2024''])"
proof -
  have h1: "fst (parse_line float_decimal [] good_line) = [good_entry]" by code_simp
  have h2: "entry_key_of good_entry \<in> set [entry_key_of good_entry]" by simp
  have n: "e_company good_entry = ''Alpha (ALP)''" "e_ex_date good_entry = ''15.03.2024''"
    by (simp_all add: good_entry_def)
  have f: "parse_md_file float_decimal [good_line, other_code_line, good_line]
       = ([good_entry, good_entry\<lparr>e_company := ''Alpha (ALQ)''\<rparr>], 2,
          [ParsedEntry ''Alpha (ALP)'', ParsedEntry ''Alpha (ALQ)'',
           DuplicateInMD ''Alpha (ALP)'' ''15.03.2024''])"
    by code_simp
  from within_batch_first_of_each_key
         [of float_decimal "[]" good_line good_entry "[entry_key_of good_entry]"] h1 h2
  have "parse_line float_decimal [entry_key_of good_entry] good_line
       = ([], [DuplicateInMD (e_company good_entry) (e_ex_date good_entry)])"
    by blast
  with h1 h2 f show ?thesis
    by (simp only: n simp_thms)
qed

text \<open>
  C4 as stated fails: "Alpha (ALP)" and "Alpha (ALQ)" have the same normalised company
  name, and "15.03.2024" and "15.3.2024" are the same ex-date; three lines with these
  names and dates and the same amount are all kept.
\<close>

theorem same_normalized_name_both_kept:
  "normalize_company_name ''Alpha (ALP)'' = normalize_company_name ''Alpha (ALQ)''
   \<and> map (\<lambda>e. (e_company e, e_ex_date e, e_comfortable_date e, e_dividend e))
        (fst (parse_md_file float_decimal [good_line, other_code_line, short_date_line]))
     = [(''Alpha (ALP)'', ''15.03.2024'', \<lparr>dyear = 2024, dmonth = 3, dday = 15\<rparr>, 1),
        (''Alpha (ALQ)'', ''15.03.2024'', \<lparr>dyear = 2024, dmonth = 3, dday = 15\<rparr>, 1),
        (''Alpha (ALP)'', ''15.3.2024'', \<lparr>dyear = 2024, dmonth = 3, dday = 15\<rparr>, 1)]"
  by code_simp

subsection \<open>Lines with a missing field or a bad amount\<close>

lemma parse_line_incomplete:
  assumes "strip (parts ! 2) = [] \<or> strip (parts ! 3) = [] \<or> strip (parts ! 5) = []
           \<or> float_of (strip (parts ! 3)) = None"
  shows "parse_line float_of seen parts = ([], [])"
  using assms by (auto simp: parse_line_def Let_def)

lemma parse_line_non_positive:
  assumes "6 \<le> length parts" "strip (parts ! 1) \<noteq> []" "strip (parts ! 2) \<noteq> []"
    "strip (parts ! 3) \<noteq> []" "strip (parts ! 5) \<noteq> []"
    "float_of (strip (parts ! 3)) = Some v" "v \<le> 0"
  shows "parse_line float_of seen parts =
           ([], [InvalidDividendAmount (company_with_acronym_of (strip (parts ! 1))) v])"
  using assms by (simp add: parse_line_def Let_def)

lemma parse_lines_skip:
  assumes "\<And>seen. parse_line f seen parts = ([], [])"
  shows "parse_lines f seen (before @ parts # after) = parse_lines f seen (before @ after)"
proof (induction before arbitrary: seen)
  case Nil
  show ?case by (simp add: assms)
next
  case (Cons l before)
  show ?case by (simp add: Cons.IH Let_def split: prod.splits)
qed

text \<open>
  C9, as the code has it. The parser returns the accepted entries and their number only;
  there is no list of rejected entries. A line with an empty ex-date, an empty amount, an
  empty payment date or an amount that is no number is dropped without any notice: it
  gives no entry and prints nothing, and the file is parsed as if the line were absent.
  A line whose fields are all present and whose amount is a number not above zero is
  dropped with the printed warning "invalid dividend amount".
\<close>

theorem incomplete_line_dropped_silently:
  "(strip (parts ! 2) = [] \<or> strip (parts ! 3) = [] \<or> strip (parts ! 5) = []
      \<or> float_of (strip (parts ! 3)) = None
    \<longrightarrow> parse_line float_of seen parts = ([], [])
        \<and> parse_md_file float_of (before @ parts # after) = parse_md_file float_of (before @ after))
   \<and> (6 \<le> length parts \<and> strip (parts ! 1) \<noteq> [] \<and> strip (parts ! 2) \<noteq> []
       \<and> strip (parts ! 3) \<noteq> [] \<and> strip (parts ! 5) \<noteq> []
       \<and> float_of (strip (parts ! 3)) = Some v \<and> v \<le> 0
    \<longrightarrow> parse_line float_of seen parts =
          ([], [InvalidDividendAmount (company_with_acronym_of (strip (parts ! 1))) v]))"
proof (intro conjI impI)
  assume a: "strip (parts ! 2) = [] \<or> strip (parts ! 3) = [] \<or> strip (parts ! 5) = []
      \<or> float_of (strip (parts ! 3)) = None"
  have skip: "parse_line float_of s parts = ([], [])" for s
    using a by (rule parse_line_incomplete [of parts float_of s])
  show "parse_line float_of seen parts = ([], [])"
    by (rule skip)
  have "parse_lines float_of [] (before @ parts # after) = parse_lines float_of [] (before @ after)"
    by (rule parse_lines_skip) (rule skip)
  then show "parse_md_file float_of (before @ parts # after) = parse_md_file float_of (before @ after)"
    by (simp add: parse_md_file_def)
next
  assume "6 \<le> length parts \<and> strip (parts ! 1) \<noteq> [] \<and> strip (parts ! 2) \<noteq> []
       \<and> strip (parts ! 3) \<noteq> [] \<and> strip (parts ! 5) \<noteq> []
       \<and> float_of (strip (parts ! 3)) = Some v \<and> v \<le> 0"
  then show "parse_line float_of seen parts =
          ([], [InvalidDividendAmount (company_with_acronym_of (strip (parts ! 1))) v])"
    by (simp add: parse_line_non_positive)
qed

theorem incomplete_line_dropped_silently_witness:
  "strip (no_ex_date_line ! 2) = []
   \<and> parse_line float_decimal [] no_ex_date_line = ([], [])
   \<and> parse_md_file float_decimal ([good_line] @ no_ex_date_line # [other_code_line])
       = parse_md_file float_decimal ([good_line] @ [other_code_line])
   \<and> float_decimal (strip (zero_amount_line ! 3)) = Some 0
   \<and> parse_line float_decimal [] zero_amount_line
       = ([], [InvalidDividendAmount ''Alpha (ALP)'' 0])"
proof -
  have h1: "strip (no_ex_date_line ! 2) = []" by code_simp
  have h2: "6 \<le> length zero_amount_line \<and> strip (zero_amount_line ! 1) \<noteq> []
       \<and> strip (zero_amount_line ! 2) \<noteq> [] \<and> strip (zero_amount_line ! 3) \<noteq> []
       \<and> strip (zero_amount_line ! 5) \<noteq> []
       \<and> float_decimal (strip (zero_amount_line ! 3)) = Some 0 \<and> (0 :: rat) \<le> 0"
    by code_simp
  have h3: "company_with_acronym_of (strip (zero_amount_line ! 1)) = ''Alpha (ALP)''"
    by code_simp
  from incomplete_line_dropped_silently
         [of no_ex_date_line float_decimal "[]" "[good_line]" "[other_code_line]"] h1
  have a: "parse_line float_decimal [] no_ex_date_line = ([], [])
     \<and> parse_md_file float_decimal ([good_line] @ no_ex_date_line # [other_code_line])
       = parse_md_file float_decimal ([good_line] @ [other_code_line])"
    by blast
  from incomplete_line_dropped_silently
         [of zero_amount_line float_decimal "[]" "[]" "[]" 0] h2
  have b: "parse_line float_decimal [] zero_amount_line =
     ([], [InvalidDividendAmount (company_with_acronym_of (strip (zero_amount_line ! 1))) 0])"
    by blast
  from h1 h2 a b show ?thesis
    by (simp only: h3 simp_thms)
qed

text \<open>
  C9 as stated fails: a file whose only line has an empty ex-date returns no entry and
  prints nothing; nothing records the line as rejected.
\<close>

theorem incomplete_line_not_reported:
  "parse_md_file float_decimal [no_ex_date_line] = ([], 0, [])"
  by code_simp

subsection \<open>Running the update twice\<close>

lemma update_csv_file_new_entries:
  "fst (snd (update_csv_file f df ls)) =
     filter (\<lambda>r. \<not> fst (is_duplicate_entry r df)) (map entry_row (fst (parse_md_file f ls)))"
  by (cases "parse_md_file f ls") (simp add: update_csv_file_def Let_def)

lemma update_csv_file_store:
  "set (fst (update_csv_file f df ls)) = set df \<union> set (fst (snd (update_csv_file f df ls)))"
  by (cases "parse_md_file f ls") (simp add: update_csv_file_def Let_def set_sort_by_ex_date)

lemma duplicate_of_itself:
  assumes "normalize_company_name (name_without_acronym (e_company e)) = normalize_company_name (e_company e)"
    and "entry_row e \<in> set df"
  shows "fst (is_duplicate_entry (entry_row e) df)"
proof -
  have "normalize_company_name (company (entry_row e))
          = normalize_company_name (name_without_acronym (company (entry_row e)))
        \<and> same_ex_date (entry_row e) (entry_row e) \<and> amount_close (entry_row e) (entry_row e)"
    using assms(1) by (simp add: entry_row_def same_ex_date_def amount_close_refl)
  with assms(2) show ?thesis
    by (auto simp: is_duplicate_entry_cases)
qed

lemma duplicate_mono:
  assumes "fst (is_duplicate_entry r df)" "set df \<subseteq> set df'"
  shows "fst (is_duplicate_entry r df')"
  using assms by (auto simp: is_duplicate_entry_cases split: if_splits)

lemma second_run_accepts_nothing:
  assumes "\<And>e. e \<in> set (fst (parse_md_file f ls)) \<Longrightarrow>
     normalize_company_name (name_without_acronym (e_company e)) = normalize_company_name (e_company e)"
  shows "fst (snd (update_csv_file f (fst (update_csv_file f df ls)) ls)) = []"
proof -
  let ?store = "fst (update_csv_file f df ls)"
  have "fst (is_duplicate_entry (entry_row e) ?store)" if e: "e \<in> set (fst (parse_md_file f ls))" for e
  proof (cases "fst (is_duplicate_entry (entry_row e) df)")
    case True
    then show ?thesis
      by (rule duplicate_mono) (simp add: update_csv_file_store)
  next
    case False
    with e have "entry_row e \<in> set (fst (snd (update_csv_file f df ls)))"
      by (simp add: update_csv_file_new_entries)
    then have "entry_row e \<in> set ?store"
      by (simp add: update_csv_file_store)
    with assms [OF e] show ?thesis
      by (rule duplicate_of_itself)
  qed
  then show ?thesis
    by (simp add: update_csv_file_new_entries [of f ?store] filter_empty_conv)
qed

text \<open>
  C5 at a company cell with an unclosed parenthesis. The store holds one row of another
  company. The first run accepts the entry "Alpha (ALP" and appends it. On the second run
  the new name is cut at its parenthesis and normalises to "Alpha", the stored name is
  normalised whole to "Alpha(ALP", the two differ, and the same entry is accepted again.
\<close>

theorem unclosed_parenthesis_accepted_twice:
  "fst (snd (update_csv_file float_decimal beta_store [unclosed_line])) = [unclosed_row]
   \<and> fst (snd (update_csv_file float_decimal
        (fst (update_csv_file float_decimal beta_store [unclosed_line])) [unclosed_line]))
      = [unclosed_row]"
  by code_simp

end
